theory Spec2Isabelle
  imports Complex_Main "HOL-Library.Multiset"
begin

section \<open>Hierarchical RNN encoder (models/pytorch/encoders/hierarchical_rnn.py)\<close>

text \<open>
  A shallow embedding of \<^verbatim>\<open>HierarchicalRNNEncoder\<close>: its constructor and its
  \<^verbatim>\<open>forward\<close>. Tensors are nested lists, a Python exception is the left
  summand of a result, and the modules of the tensor library (recurrent cells, the
  linear projection, the convolutional front-end) are parameters: functions on tensors
  about which nothing is assumed unless a theorem says so.
\<close>

subsection \<open>Exceptions\<close>

text \<open>
  \<open>ValueError\<close> carries its message. \<open>AssertionError\<close> carries the line of
  \<^verbatim>\<open>hierarchical_rnn.py\<close> whose \<^verbatim>\<open>assert\<close> failed, as the traceback
  does: the source's assertions have no message of their own.
\<close>

datatype error =
    ValueError string
  | AssertionError nat
  | IndexError
  | RuntimeError
  | UnboundLocalError
  | AttributeError

definition ebind :: "error + 'a \<Rightarrow> ('a \<Rightarrow> error + 'b) \<Rightarrow> error + 'b" where
  "ebind m f = (case m of Inl e \<Rightarrow> Inl e | Inr x \<Rightarrow> f x)"

subsection \<open>Tensors\<close>

text \<open>
  A tensor of rank 3 is a list of lists of feature vectors: \<open>[B, T, F]\<close> when
  batch-major, \<open>[T, B, F]\<close> when time-major. \<^verbatim>\<open>transpose(0, 1)\<close> is
  \<^const>\<open>transpose\<close>.
\<close>

type_synonym 'a tensor = "'a list list list"

text \<open>
  \<^verbatim>\<open>a + b\<close> on tensors of the same rank, with the library's broadcasting: along
  each dimension the sizes agree or one of them is 1; otherwise the library raises.
\<close>

definition sequence_err :: "(error + 'a) list \<Rightarrow> error + 'a list" where
  "sequence_err ms = foldr (\<lambda>m acc. ebind m (\<lambda>x. ebind acc (\<lambda>xs. Inr (x # xs)))) ms (Inr [])"

definition broadcast2 ::
  "('a \<Rightarrow> 'b \<Rightarrow> error + 'c) \<Rightarrow> 'a list \<Rightarrow> 'b list \<Rightarrow> error + 'c list" where
  "broadcast2 f xs ys =
     (if length xs = length ys then sequence_err (map2 f xs ys)
      else if length xs = 1 then sequence_err (map (f (hd xs)) ys)
      else if length ys = 1 then sequence_err (map (\<lambda>x. f x (hd ys)) xs)
      else Inl RuntimeError)"

definition tensor_add :: "'a::plus tensor \<Rightarrow> 'a tensor \<Rightarrow> error + 'a tensor" where
  "tensor_add a b = broadcast2 (broadcast2 (broadcast2 (\<lambda>x y. Inr (x + y)))) a b"

text \<open>Python slices \<^verbatim>\<open>xs[:n]\<close> and \<^verbatim>\<open>xs[n:]\<close>, a negative \<open>n\<close> counting from the end.\<close>

definition slice_to :: "int \<Rightarrow> 'a list \<Rightarrow> 'a list" where
  "slice_to n xs = (if n < 0 then take (length xs - nat (- n)) xs else take (nat n) xs)"

definition slice_from :: "int \<Rightarrow> 'a list \<Rightarrow> 'a list" where
  "slice_from n xs = (if n < 0 then drop (length xs - nat (- n)) xs else drop (nat n) xs)"

text \<open>\<^verbatim>\<open>inputs[perm_indices]\<close>: rows selected by an index tensor.\<close>

definition index_select :: "'b list \<Rightarrow> nat list \<Rightarrow> error + 'b list" where
  "index_select xs idx =
     (if list_all (\<lambda>i. i < length xs) idx then Inr (map (\<lambda>i. xs ! i) idx) else Inl IndexError)"

text \<open>
  \<^verbatim>\<open>inputs_seq_len.sort(dim=0, descending=True)\<close> belongs to the tensor library: it
  returns the sorted values and, for each sorted position, the index it came from, and
  it leaves the order of equal values open. So the sort is a parameter of \<open>forward\<close>,
  and this is what the library promises of its result on \<open>xs\<close>: the indices are a
  permutation of the positions, the values are \<open>xs\<close> taken in their order, and the
  values descend.
\<close>

definition descending_sort :: "(int list \<Rightarrow> int list \<times> nat list) \<Rightarrow> int list \<Rightarrow> bool" where
  "descending_sort sort_fn xs =
     (mset (snd (sort_fn xs)) = mset [0..<length xs]
      \<and> fst (sort_fn xs) = map (\<lambda>i. xs ! i) (snd (sort_fn xs))
      \<and> sorted (rev (fst (sort_fn xs))))"

subsection \<open>Packed sequences\<close>

text \<open>
  A \<^verbatim>\<open>PackedSequence\<close> stands for a batch of sequences of different lengths with
  no padding. It is modelled by that batch: one list of frames per example.
\<close>

datatype 'a packed = PackedSequence (seqs: "'a list list list")

definition max_len :: "'b list list \<Rightarrow> nat" where
  "max_len rows = foldr (\<lambda>r. max (length r)) rows 0"

definition feature_size :: "'a list list list \<Rightarrow> nat" where
  "feature_size rows = (case rows of (fr # _) # _ \<Rightarrow> length fr | _ \<Rightarrow> 0)"

text \<open>
  \<^verbatim>\<open>pack_padded_sequence(input, lengths, batch_first)\<close> of the tensor library: the
  lengths must be positive, one per batch row and in decreasing order; row \<open>b\<close> keeps
  its first \<open>lengths[b]\<close> frames. A length beyond the time dimension gives no
  packed sequence that a recurrent cell accepts.
\<close>

definition pack_padded_sequence ::
  "'a tensor \<Rightarrow> int list \<Rightarrow> bool \<Rightarrow> error + 'a packed" where
  "pack_padded_sequence input lengths bf =
     (if lengths = [] then Inl IndexError
      else if last lengths \<le> 0 then Inl (ValueError ''length of all samples has to be greater than 0'')
      else
        let rows = (if bf then input else transpose input) in
        if length lengths \<noteq> length rows then Inl (ValueError ''lengths array has incorrect size'')
        else if \<not> sorted (rev lengths)
          then Inl (ValueError ''lengths array has to be sorted in decreasing order'')
        else if \<not> list_all (\<lambda>r. hd lengths \<le> int (length r)) rows then Inl RuntimeError
        else Inr (PackedSequence (map2 (\<lambda>l r. take (nat l) r) lengths rows)))"

text \<open>
  \<^verbatim>\<open>pad_packed_sequence(sequence, batch_first, padding_value=0.0)\<close>: every example
  is filled with zero frames up to the longest one; the second component is the list
  of the examples' lengths.
\<close>

definition pad_packed_sequence :: "'a::zero packed \<Rightarrow> bool \<Rightarrow> 'a tensor \<times> int list" where
  "pad_packed_sequence sequence bf =
     (let rows = seqs sequence;
          output = map (\<lambda>r. r @ replicate (max_len rows - length r)
                                  (replicate (feature_size rows) 0)) rows
      in (if bf then output else transpose output, map (\<lambda>r. int (length r)) rows))"

subsection \<open>The encoder object\<close>

text \<open>
  A recurrent cell takes the packed input and the initial hidden state and returns
  the packed output and the final hidden state \<open>h_n\<close> of size
  \<open>[num_directions, B, num_units]\<close> (for an LSTM the memory cell returned beside
  \<open>h_n\<close> is dropped by the encoder and is left out).
\<close>

type_synonym ('a, 'h) rnn = "'a packed \<Rightarrow> 'h \<Rightarrow> 'a packed \<times> 'a tensor"

type_synonym 'a linear = "'a tensor \<Rightarrow> 'a tensor"

record 'a cnn_encoder =
  cnn_call :: "'a tensor \<Rightarrow> 'a tensor"
  output_size :: int

record ('a, 'h) encoder =
  rnn_type :: string
  bidirectional :: bool
  num_directions :: int
  num_units :: int
  num_proj :: int
  num_layers :: int
  num_layers_sub :: int
  use_cuda :: bool
  batch_first :: bool
  merge_bidirectional :: bool
  residual :: bool
  dense_residual :: bool
  conv :: "'a cnn_encoder option"
  conv_out_size :: "(int \<Rightarrow> int \<Rightarrow> int) option"
  rnns :: "('a, 'h) rnn list"
  projections :: "'a linear list"

text \<open>
  The constructors of the modules the encoder is built from. They belong to the tensor
  library (\<^verbatim>\<open>nn.LSTM\<close>, \<^verbatim>\<open>nn.GRU\<close>, \<^verbatim>\<open>nn.RNN\<close>) or to modules of the
  repository that hold learned weights (\<^verbatim>\<open>LinearND\<close>, \<^verbatim>\<open>CNNEncoder\<close>,
  \<^verbatim>\<open>ConvOutSize\<close>); the encoder only calls them, so they are parameters. A cell
  constructor takes the input size, the hidden size, \<open>batch_first\<close>, the dropout and
  \<open>bidirectional\<close>.
\<close>

record ('a, 'h, 'c, 'k, 's, 'p) nn =
  LSTM :: "int \<Rightarrow> int \<Rightarrow> bool \<Rightarrow> real \<Rightarrow> bool \<Rightarrow> ('a, 'h) rnn"
  GRU :: "int \<Rightarrow> int \<Rightarrow> bool \<Rightarrow> real \<Rightarrow> bool \<Rightarrow> ('a, 'h) rnn"
  RNN :: "int \<Rightarrow> int \<Rightarrow> bool \<Rightarrow> real \<Rightarrow> bool \<Rightarrow> ('a, 'h) rnn"
  LinearND :: "int \<Rightarrow> int \<Rightarrow> 'a linear"
  CNNEncoder :: "int \<Rightarrow> 'c list \<Rightarrow> 'k list \<Rightarrow> 's list \<Rightarrow> 'p list \<Rightarrow> real \<Rightarrow> real
                 \<Rightarrow> string \<Rightarrow> bool \<Rightarrow> bool \<Rightarrow> 'a cnn_encoder"
  ConvOutSize :: "'a cnn_encoder \<Rightarrow> int \<Rightarrow> int \<Rightarrow> int"

text \<open>The arguments of \<^verbatim>\<open>__init__\<close>, in the order of the source.\<close>

record ('c, 'k, 's, 'p) init_args =
  arg_input_size :: int
  arg_rnn_type :: string
  arg_bidirectional :: bool
  arg_num_units :: int
  arg_num_proj :: "int option"
  arg_num_layers :: int
  arg_num_layers_sub :: int
  arg_dropout :: real
  arg_parameter_init :: real
  arg_use_cuda :: bool
  arg_batch_first :: bool
  arg_merge_bidirectional :: bool
  arg_num_stack :: int
  arg_splice :: int
  arg_conv_channels :: "'c list"
  arg_conv_kernel_sizes :: "'k list"
  arg_conv_strides :: "'s list"
  arg_poolings :: "'p list"
  arg_activation :: string
  arg_batch_norm :: bool
  arg_residual :: bool
  arg_dense_residual :: bool

text \<open>
  The loop of the constructor over \<^verbatim>\<open>range(num_layers)\<close>: one cell per layer and,
  when a projection is configured, one projection per layer. \<open>self_num_proj\<close> is
  \<^verbatim>\<open>self.num_proj\<close>, \<open>input_size\<close> the size after the front-end or the splicing.
\<close>

definition rnn_type_message :: string where
  \<open>rnn_type_message = ''rnn_type must be "lstm" or "gru" or "rnn".''\<close>

fun build_layers ::
  "('a, 'h, 'c, 'k, 's, 'p) nn \<Rightarrow> ('c, 'k, 's, 'p) init_args \<Rightarrow> int \<Rightarrow> int \<Rightarrow> int \<Rightarrow> nat list
   \<Rightarrow> ('a, 'h) rnn list \<times> 'a linear list \<Rightarrow> error + ('a, 'h) rnn list \<times> 'a linear list" where
  "build_layers lib a self_num_proj n_dir input_size [] acc = Inr acc"
| "build_layers lib a self_num_proj n_dir input_size (i_layer # rest) (rs, ps) =
     (let encoder_input_size =
            (if i_layer = 0 then input_size
             else if self_num_proj > 0 then the (arg_num_proj a)
             else arg_num_units a * n_dir)
      in ebind
           (if arg_rnn_type a = ''lstm'' then
              Inr (LSTM lib encoder_input_size (arg_num_units a) (arg_batch_first a)
                     (arg_dropout a) (arg_bidirectional a))
            else if arg_rnn_type a = ''gru'' then
              Inr (GRU lib encoder_input_size (arg_num_units a) (arg_batch_first a)
                     (arg_dropout a) (arg_bidirectional a))
            else if arg_rnn_type a = ''rnn'' then
              Inr (RNN lib encoder_input_size (arg_num_units a) (arg_batch_first a)
                     (arg_dropout a) (arg_bidirectional a))
            else Inl (ValueError rnn_type_message))
           (\<lambda>rnn_i.
              build_layers lib a self_num_proj n_dir input_size rest
                (rs @ [rnn_i],
                 if self_num_proj > 0
                 then ps @ [LinearND lib (arg_num_units a * n_dir) (the (arg_num_proj a))]
                 else ps)))"

definition init ::
  "('a, 'h, 'c, 'k, 's, 'p) nn \<Rightarrow> ('c, 'k, 's, 'p) init_args \<Rightarrow> error + ('a, 'h) encoder" where
  "init lib a =
     (if arg_num_layers_sub a < 1 \<or> arg_num_layers a < arg_num_layers_sub a
        then Inl (ValueError ''Set num_layers_sub between 1 to num_layers.'')
      else
        let n_dir = (if arg_bidirectional a then 2 else 1);
            self_num_proj = (case arg_num_proj a of Some p \<Rightarrow> p | None \<Rightarrow> 0)
        in
        if arg_residual a \<and> arg_dense_residual a then Inl (AssertionError 91)
        else
          ebind
            (if length (arg_conv_channels a) > 0
                \<and> length (arg_conv_channels a) = length (arg_conv_kernel_sizes a)
                \<and> length (arg_conv_kernel_sizes a) = length (arg_conv_strides a)
             then
               if arg_num_stack a \<noteq> 1 then Inl (AssertionError 97)
               else if arg_splice a \<noteq> 1 then Inl (AssertionError 98)
               else
                 let c = CNNEncoder lib (arg_input_size a) (arg_conv_channels a)
                           (arg_conv_kernel_sizes a) (arg_conv_strides a) (arg_poolings a)
                           (arg_dropout a) (arg_parameter_init a) (arg_activation a)
                           (arg_use_cuda a) (arg_batch_norm a)
                 in Inr (output_size c, Some c, Some (ConvOutSize lib c))
             else Inr (arg_input_size a * arg_splice a * arg_num_stack a, None, None))
            (\<lambda>(input_size, conv_mod, conv_out).
               ebind
                 (build_layers lib a self_num_proj n_dir input_size
                    [0..<nat (arg_num_layers a)] ([], []))
                 (\<lambda>(rs, ps).
                    Inr \<lparr> rnn_type = arg_rnn_type a,
                          bidirectional = arg_bidirectional a,
                          num_directions = n_dir,
                          num_units = arg_num_units a,
                          num_proj = self_num_proj,
                          num_layers = arg_num_layers a,
                          num_layers_sub = arg_num_layers_sub a,
                          use_cuda = arg_use_cuda a,
                          batch_first = arg_batch_first a,
                          merge_bidirectional = arg_merge_bidirectional a,
                          residual = arg_residual a,
                          dense_residual = arg_dense_residual a,
                          conv = conv_mod,
                          conv_out_size = conv_out,
                          rnns = rs,
                          projections = ps \<rparr>)))"

subsection \<open>The forward computation\<close>

text \<open>
  The variables of the loop over the layers: \<open>outputs\<close>, \<open>h_n\<close> (unbound before
  the first layer), \<open>res_outputs_list\<close>, and \<open>outputs_sub\<close> with \<open>h_n_sub\<close>
  (assigned together, unbound before the sub-task layer).
\<close>

record 'a loop_state =
  cur_outputs :: "'a packed"
  cur_h_n :: "'a tensor option"
  res_outputs_list :: "'a tensor list"
  sub_snapshot :: "('a packed \<times> 'a tensor) option"

record 'a result =
  outputs :: "'a tensor"
  final_state_fw :: "'a tensor"
  outputs_sub :: "'a tensor"
  final_state_fw_sub :: "'a tensor"
  perm_indices :: "nat list"

text \<open>Lines 236-238: the projection layer, not on the last layer.\<close>

definition projection_layer :: "('a, 'h) encoder \<Rightarrow> nat \<Rightarrow> 'a tensor \<Rightarrow> error + 'a tensor" where
  "projection_layer enc i_layer outs =
     (if num_proj enc > 0 \<and> int i_layer \<noteq> num_layers enc - 1 then
        (if i_layer < length (projections enc) then Inr ((projections enc ! i_layer) outs)
         else Inl IndexError)
      else Inr outs)"

text \<open>Lines 243-244: \<^verbatim>\<open>for outputs_lower in res_outputs_list: outputs = outputs + outputs_lower\<close>.\<close>

fun sum_lower :: "'a::plus tensor \<Rightarrow> 'a tensor list \<Rightarrow> error + 'a tensor" where
  "sum_lower outs [] = Inr outs"
| "sum_lower outs (outputs_lower # rest) =
     ebind (tensor_add outs outputs_lower) (\<lambda>outs'. sum_lower outs' rest)"

text \<open>Lines 242-248: the residual connection; it returns the new \<open>outputs\<close> and the new list.\<close>

definition residual_connection ::
  "('a::plus, 'h) encoder \<Rightarrow> 'a tensor \<Rightarrow> 'a tensor list \<Rightarrow> error + 'a tensor \<times> 'a tensor list" where
  "residual_connection enc outs res_list =
     (if residual enc \<or> dense_residual enc then
        ebind (sum_lower outs res_list)
          (\<lambda>outs'. Inr (outs',
             if residual enc then [outs']
             else if dense_residual enc then res_list @ [outs']
             else res_list))
      else Inr (outs, res_list))"

text \<open>Lines 230-253: unpack, check the lengths, project, add the residuals, pack again.\<close>

definition unpack_project_residual ::
  "('a::{zero,plus}, 'h) encoder \<Rightarrow> int list \<Rightarrow> nat \<Rightarrow> 'a packed \<Rightarrow> 'a tensor list
   \<Rightarrow> error + 'a packed \<times> 'a tensor list" where
  "unpack_project_residual enc inputs_seq_len i_layer out res_list =
     (let (outs, unpacked_seq_len) = pad_packed_sequence out (batch_first enc) in
      if inputs_seq_len \<noteq> unpacked_seq_len then Inl (AssertionError 234)
      else
        ebind (projection_layer enc i_layer outs) (\<lambda>projected.
        ebind (residual_connection enc projected res_list) (\<lambda>(summed, res_list').
        ebind (pack_padded_sequence summed unpacked_seq_len (batch_first enc)) (\<lambda>repacked.
        Inr (repacked, res_list')))))"

text \<open>
  Lines 224-257: one pass of the loop body. Both branches on \<open>rnn_type\<close> bind the
  cell's output and \<open>h_n\<close>, so they are one call here.
\<close>

definition layer_step ::
  "('a::{zero,plus}, 'h) encoder \<Rightarrow> int list \<Rightarrow> 'h \<Rightarrow> nat \<Rightarrow> 'a loop_state \<Rightarrow> error + 'a loop_state" where
  "layer_step enc inputs_seq_len h_0 i_layer s =
     (if length (rnns enc) \<le> i_layer then Inl IndexError
      else
        let (out, h_n) = (rnns enc ! i_layer) (cur_outputs s) h_0 in
        ebind
          (if residual enc \<or> dense_residual enc \<or> num_proj enc > 0
           then unpack_project_residual enc inputs_seq_len i_layer out (res_outputs_list s)
           else Inr (out, res_outputs_list s))
          (\<lambda>(outs, res_list').
             Inr \<lparr> cur_outputs = outs,
                   cur_h_n = Some h_n,
                   res_outputs_list = res_list',
                   sub_snapshot =
                     (if int i_layer = num_layers_sub enc - 1 then Some (outs, h_n)
                      else sub_snapshot s) \<rparr>))"

fun run_layers ::
  "('a::{zero,plus}, 'h) encoder \<Rightarrow> int list \<Rightarrow> 'h \<Rightarrow> nat list \<Rightarrow> 'a loop_state \<Rightarrow> error + 'a loop_state" where
  "run_layers enc inputs_seq_len h_0 [] s = Inr s"
| "run_layers enc inputs_seq_len h_0 (i_layer # rest) s =
     ebind (layer_step enc inputs_seq_len h_0 i_layer s) (run_layers enc inputs_seq_len h_0 rest)"

text \<open>Lines 269-272: \<^verbatim>\<open>t[:, :, :num_units] + t[:, :, num_units:]\<close>.\<close>

definition sum_bidirectional :: "int \<Rightarrow> 'a::plus tensor \<Rightarrow> error + 'a tensor" where
  "sum_bidirectional n t = tensor_add (map (map (slice_to n)) t) (map (map (slice_from n)) t)"

text \<open>
  Lines 275-280: \<^verbatim>\<open>h[-2:-1, :, :]\<close> when there are two directions, else
  \<^verbatim>\<open>h[-1, :, :].unsqueeze(dim=0)\<close>.
\<close>

definition pick_final_state :: "int \<Rightarrow> 'a tensor \<Rightarrow> error + 'a tensor" where
  "pick_final_state n_dir h =
     (if n_dir = 2 then Inr (drop (length h - 2) (take (length h - 1) h))
      else if h = [] then Inl IndexError
      else Inr [last h])"

text \<open>Lines 201-214: the front-end, the time-major reshape and the lengths after the front-end.\<close>

definition front_end ::
  "('a, 'h) encoder \<Rightarrow> 'a tensor \<Rightarrow> int list \<Rightarrow> error + 'a tensor \<times> int list" where
  "front_end enc inputs sorted_len =
     (let inputs1 = (case conv enc of Some c \<Rightarrow> cnn_call c inputs | None \<Rightarrow> inputs);
          inputs2 = (if \<not> batch_first enc then transpose inputs1 else inputs1)
      in case conv enc of
           None \<Rightarrow> Inr (inputs2, sorted_len)
         | Some c \<Rightarrow>
             (case conv_out_size enc of
                None \<Rightarrow> Inl AttributeError
              | Some out_size \<Rightarrow> Inr (inputs2, map (\<lambda>x. out_size x 1) sorted_len)))"

text \<open>Lines 259-286: unpack both outputs, check the lengths, merge the directions, pick the states.\<close>

definition finish ::
  "('a::{zero,plus}, 'h) encoder \<Rightarrow> int list \<Rightarrow> nat list \<Rightarrow> 'a loop_state \<Rightarrow> error + 'a result" where
  "finish enc inputs_seq_len perm s =
     (let (outs, unpacked_seq_len) = pad_packed_sequence (cur_outputs s) (batch_first enc) in
      case sub_snapshot s of
        None \<Rightarrow> Inl UnboundLocalError
      | Some (packed_sub, h_n_sub) \<Rightarrow>
          let (outs_sub, unpacked_seq_len_sub) = pad_packed_sequence packed_sub (batch_first enc) in
          if inputs_seq_len \<noteq> unpacked_seq_len then Inl (AssertionError 264)
          else if inputs_seq_len \<noteq> unpacked_seq_len_sub then Inl (AssertionError 265)
          else
            ebind
              (if bidirectional enc \<and> merge_bidirectional enc then
                 ebind (sum_bidirectional (num_units enc) outs) (\<lambda>merged.
                 ebind (sum_bidirectional (num_units enc) outs_sub) (\<lambda>merged_sub.
                 Inr (merged, merged_sub)))
               else Inr (outs, outs_sub))
              (\<lambda>(outs', outs_sub').
                 case cur_h_n s of
                   None \<Rightarrow> Inl UnboundLocalError
                 | Some h_n \<Rightarrow>
                     ebind (pick_final_state (num_directions enc) h_n) (\<lambda>fw.
                     ebind (pick_final_state (num_directions enc) h_n_sub) (\<lambda>fw_sub.
                     Inr \<lparr> outputs = outs',
                           final_state_fw = fw,
                           outputs_sub = outs_sub',
                           final_state_fw_sub = fw_sub,
                           perm_indices = perm \<rparr>))))"

text \<open>
  Lines 220-222: the loop starts from the packed inputs with no residual retained
  (\<^verbatim>\<open>res_outputs_list = []\<close>) and nothing else bound.
\<close>

definition initial_state :: "'a packed \<Rightarrow> 'a loop_state" where
  "initial_state packed =
     \<lparr> cur_outputs = packed, cur_h_n = None, res_outputs_list = [], sub_snapshot = None \<rparr>"

text \<open>
  Lines 196-218: sort the lengths in descending order (\<open>sort_fn\<close> is the library's
  sort) and the inputs with them, pass the front-end, pack. The result is the packed
  inputs, the lengths the encoder tracks from here on, and the permutation.
\<close>

definition prepare ::
  "(int list \<Rightarrow> int list \<times> nat list) \<Rightarrow> ('a, 'h) encoder \<Rightarrow> 'a tensor \<Rightarrow> int list
   \<Rightarrow> error + 'a packed \<times> int list \<times> nat list" where
  "prepare sort_fn enc inputs inputs_seq_len =
     (let (sorted_len, perm) = sort_fn inputs_seq_len in
        ebind (index_select inputs perm) (\<lambda>sorted_inputs.
        ebind (front_end enc sorted_inputs sorted_len) (\<lambda>(inputs', seq_len).
        ebind (pack_padded_sequence inputs' seq_len (batch_first enc)) (\<lambda>packed.
        Inr (packed, seq_len, perm)))))"

text \<open>
  \<^verbatim>\<open>forward(inputs, inputs_seq_len, volatile)\<close>. \<open>sort_fn\<close> is the library's
  descending sort. \<open>init_hidden\<close> is \<^verbatim>\<open>_init_hidden\<close> of \<^verbatim>\<open>rnn_utils\<close>, called
  with the batch size, the cell type, \<open>num_units\<close>, \<open>num_directions\<close>,
  \<open>use_cuda\<close> and \<open>volatile\<close> (and always one layer); the encoder only passes its
  result to the cells.
\<close>

definition forward ::
  "(int list \<Rightarrow> int list \<times> nat list)
   \<Rightarrow> (nat \<Rightarrow> string \<Rightarrow> int \<Rightarrow> int \<Rightarrow> bool \<Rightarrow> bool \<Rightarrow> 'h) \<Rightarrow> ('a::{zero,plus}, 'h) encoder
   \<Rightarrow> 'a tensor \<Rightarrow> int list \<Rightarrow> bool \<Rightarrow> error + 'a result" where
  "forward sort_fn init_hidden enc inputs inputs_seq_len volatile =
     (let h_0 = init_hidden (length inputs) (rnn_type enc) (num_units enc) (num_directions enc)
                  (use_cuda enc) volatile
      in
        ebind (prepare sort_fn enc inputs inputs_seq_len) (\<lambda>(packed, seq_len, perm).
        ebind (run_layers enc seq_len h_0 [0..<nat (num_layers enc)] (initial_state packed))
          (finish enc seq_len perm)))"

subsection \<open>Sizes, and what the tensor library promises of a cell\<close>

text \<open>\<^verbatim>\<open>t.size(0)\<close> and \<^verbatim>\<open>t.size(1)\<close> of a tensor of rank 3.\<close>

definition size0 :: "'a tensor \<Rightarrow> nat" where
  "size0 t = length t"

definition size1 :: "'a tensor \<Rightarrow> nat" where
  "size1 t = (case t of [] \<Rightarrow> 0 | m # _ \<Rightarrow> length m)"

text \<open>A tensor of size \<open>[a, b, c]\<close>: every row and every vector has the same length.\<close>

definition has_size :: "'a tensor \<Rightarrow> nat \<Rightarrow> nat \<Rightarrow> nat \<Rightarrow> bool" where
  "has_size t a b c =
     (length t = a \<and> list_all (\<lambda>m. length m = b \<and> list_all (\<lambda>v. length v = c) m) t)"

text \<open>A tensor whose first two dimensions are \<open>a\<close> and \<open>b\<close>: \<open>a\<close> rows of \<open>b\<close> entries each.\<close>

definition leading_sizes :: "'a tensor \<Rightarrow> nat \<Rightarrow> nat \<Rightarrow> bool" where
  "leading_sizes t a b = (length t = a \<and> list_all (\<lambda>m. length m = b) t)"

text \<open>The time dimension of an output of the encoder: the second when batch-major, else the first.\<close>

definition time_size :: "bool \<Rightarrow> 'a tensor \<Rightarrow> nat" where
  "time_size bf t = (if bf then size1 t else size0 t)"

text \<open>
  The contract of a recurrent cell of the tensor library with one layer: the packed
  output has the lengths of the packed input and \<open>num_units * num_directions\<close>
  features, and \<open>h_n\<close> has size \<open>[num_directions, B, num_units]\<close>.
\<close>

definition cell_contract :: "nat \<Rightarrow> nat \<Rightarrow> 'h \<Rightarrow> ('a, 'h) rnn \<Rightarrow> bool" where
  "cell_contract n_dir units h_0 cell =
     (\<forall>p. map length (seqs (fst (cell p h_0))) = map length (seqs p)
        \<and> list_all (list_all (\<lambda>v. length v = units * n_dir)) (seqs (fst (cell p h_0)))
        \<and> has_size (snd (cell p h_0)) n_dir (length (seqs p)) units)"


subsection \<open>A concrete library and concrete encoders\<close>

text \<open>
  Two sorts that keep the promise of the library's descending sort: the first leaves
  equal lengths in their original order, the second reverses them.
\<close>

definition stable_sort_descending :: "int list \<Rightarrow> int list \<times> nat list" where
  "stable_sort_descending xs =
     (let perm = sort_key (\<lambda>i. - (xs ! i)) [0..<length xs]
      in (map (\<lambda>i. xs ! i) perm, perm))"


text \<open>
  A cell that writes the sum of each input frame into every output feature, and the
  sum of the whole sequence into every feature of \<open>h_n\<close>; a projection that writes
  the sum of each frame into every output feature. They keep the sizes a cell and a
  linear layer of the library keep, and serve as instances.
\<close>

definition sum_cell :: "int \<Rightarrow> int \<Rightarrow> bool \<Rightarrow> real \<Rightarrow> bool \<Rightarrow> (int, unit) rnn" where
  "sum_cell input_size hidden_size bf dropout bidir p h =
     (PackedSequence
        (map (map (\<lambda>fr. replicate (nat hidden_size * (if bidir then 2 else 1)) (sum_list fr)))
           (seqs p)),
      replicate (if bidir then 2 else 1)
        (map (\<lambda>s. replicate (nat hidden_size) (sum_list (concat s))) (seqs p)))"

definition sum_linear :: "int \<Rightarrow> int \<Rightarrow> int linear" where
  "sum_linear in_size out_size t = map (map (\<lambda>fr. replicate (nat out_size) (sum_list fr))) t"

definition example_nn :: "(int, unit, nat, nat, nat, nat) nn" where
  "example_nn =
     \<lparr> LSTM = sum_cell, GRU = sum_cell, RNN = sum_cell, LinearND = sum_linear,
       CNNEncoder = (\<lambda>input_size _ _ _ _ _ _ _ _ _. \<lparr> cnn_call = (\<lambda>t. t), output_size = input_size \<rparr>),
       ConvOutSize = (\<lambda>_ x _. x) \<rparr>"

definition no_hidden :: "nat \<Rightarrow> string \<Rightarrow> int \<Rightarrow> int \<Rightarrow> bool \<Rightarrow> bool \<Rightarrow> unit" where
  "no_hidden batch_size cell_type units n_dir cuda volatile = ()"

text \<open>
  One feature per frame, one unit, single direction, batch-major, two layers with the
  sub-task at the first, no projection, no front-end, no residual.
\<close>

definition example_args :: "(nat, nat, nat, nat) init_args" where
  "example_args =
     \<lparr> arg_input_size = 1, arg_rnn_type = ''lstm'', arg_bidirectional = False,
       arg_num_units = 1, arg_num_proj = None, arg_num_layers = 2, arg_num_layers_sub = 1,
       arg_dropout = 0, arg_parameter_init = 0, arg_use_cuda = False, arg_batch_first = True,
       arg_merge_bidirectional = False, arg_num_stack = 1, arg_splice = 1,
       arg_conv_channels = [], arg_conv_kernel_sizes = [], arg_conv_strides = [],
       arg_poolings = [], arg_activation = ''relu'', arg_batch_norm = False,
       arg_residual = False, arg_dense_residual = False \<rparr>"

text \<open>The encoder that \<open>init\<close> builds from \<open>example_args\<close>.\<close>

definition example_encoder :: "(int, unit) encoder" where
  "example_encoder =
     \<lparr> rnn_type = ''lstm'', bidirectional = False, num_directions = 1, num_units = 1,
       num_proj = 0, num_layers = 2, num_layers_sub = 1, use_cuda = False, batch_first = True,
       merge_bidirectional = False, residual = False, dense_residual = False,
       conv = None, conv_out_size = None,
       rnns = [sum_cell 1 1 True 0 False, sum_cell 1 1 True 0 False],
       projections = [] \<rparr>"

text \<open>
  A batch of three sequences of lengths 3, 5 and 4, padded with zero frames to five
  frames; every frame of example \<open>b\<close> holds \<open>b + 1\<close>.
\<close>

definition example_inputs :: "int tensor" where
  "example_inputs =
     [[[1], [1], [1], [0], [0]],
      [[2], [2], [2], [2], [2]],
      [[3], [3], [3], [3], [0]]]"

text \<open>A batch of three sequences of lengths 5, 3 and 4.\<close>

definition scenario_inputs :: "int tensor" where
  "scenario_inputs =
     [[[1], [1], [1], [1], [1]],
      [[2], [2], [2], [0], [0]],
      [[3], [3], [3], [3], [0]]]"


text \<open>The packed form of \<open>example_inputs\<close> sorted by length.\<close>

definition example_packed :: "int packed" where
  "example_packed =
     PackedSequence
       [[[2], [2], [2], [2], [2]],
        [[3], [3], [3], [3]],
        [[1], [1], [1]]]"

text \<open>
  Two cells that break the contract of a recurrent cell: one loses the last frame of
  every sequence, the other adds a zero frame to every sequence.
\<close>

definition truncating_cell :: "(int, unit) rnn" where
  "truncating_cell p h = (PackedSequence (map butlast (seqs p)), [map (\<lambda>s. [sum_list (concat s)]) (seqs p)])"

definition extending_cell :: "(int, unit) rnn" where
  "extending_cell p h = (PackedSequence (map (\<lambda>s. s @ [[0]]) (seqs p)), [map (\<lambda>s. [sum_list (concat s)]) (seqs p)])"

text \<open>\<open>example_packed\<close> padded again, batch-major.\<close>

definition example_padded :: "int tensor" where
  "example_padded =
     [[[2], [2], [2], [2], [2]],
      [[3], [3], [3], [3], [0]],
      [[1], [1], [1], [0], [0]]]"

text \<open>
  The encoder that \<open>init\<close> builds from \<open>example_args\<close> with a projection of
  width 2.
\<close>

definition projection_encoder :: "(int, unit) encoder" where
  "projection_encoder =
     example_encoder
       \<lparr> num_proj := 2,
         rnns := [sum_cell 1 1 True 0 False, sum_cell 2 1 True 0 False],
         projections := [sum_linear 1 2, sum_linear 1 2] \<rparr>"

text \<open>
  A bidirectional encoder with two units, its two directions summed, and a projection
  of width 6: the arguments, and the encoder that \<open>init\<close> builds from them.
\<close>

definition merge_args :: "(nat, nat, nat, nat) init_args" where
  "merge_args =
     example_args \<lparr> arg_bidirectional := True, arg_merge_bidirectional := True,
                    arg_num_units := 2, arg_num_proj := Some 6 \<rparr>"

definition merge_encoder :: "(int, unit) encoder" where
  "merge_encoder =
     \<lparr> rnn_type = ''lstm'', bidirectional = True, num_directions = 2, num_units = 2,
       num_proj = 6, num_layers = 2, num_layers_sub = 1, use_cuda = False, batch_first = True,
       merge_bidirectional = True, residual = False, dense_residual = False,
       conv = None, conv_out_size = None,
       rnns = [sum_cell 1 2 True 0 True, sum_cell 6 2 True 0 True],
       projections = [sum_linear 4 6, sum_linear 4 6] \<rparr>"

text \<open>
  The encoder that \<open>init\<close> builds from \<open>example_args\<close> made bidirectional with two
  units: no projection, the directions not summed.
\<close>

definition bidirectional_encoder :: "(int, unit) encoder" where
  "bidirectional_encoder =
     \<lparr> rnn_type = ''lstm'', bidirectional = True, num_directions = 2, num_units = 2,
       num_proj = 0, num_layers = 2, num_layers_sub = 1, use_cuda = False, batch_first = True,
       merge_bidirectional = False, residual = False, dense_residual = False,
       conv = None, conv_out_size = None,
       rnns = [sum_cell 1 2 True 0 True, sum_cell 4 2 True 0 True],
       projections = [] \<rparr>"

section \<open>Properties\<close>

subsection \<open>Helper lemmas\<close>

lemma ebind_Inl [simp]: "ebind (Inl e) f = Inl e"
  by (simp add: ebind_def)

lemma ebind_Inr [simp]: "ebind (Inr x) f = f x"
  by (simp add: ebind_def)

lemma ebind_eq_Inr: "ebind m f = Inr y \<longleftrightarrow> (\<exists>x. m = Inr x \<and> f x = Inr y)"
  by (cases m) simp_all

lemma ebind_eq_Inl: "ebind m f = Inl e \<longleftrightarrow> m = Inl e \<or> (\<exists>x. m = Inr x \<and> f x = Inl e)"
  by (cases m) simp_all

lemma stable_sort_354: "stable_sort_descending [3, 5, 4] = ([5, 4, 3], [1, 2, 0])"
  by (simp add: stable_sort_descending_def upt_rec)

lemma stable_sort_534: "stable_sort_descending [5, 3, 4] = ([5, 4, 3], [0, 2, 1])"
  by (simp add: stable_sort_descending_def upt_rec)

lemmas forward_eval =
  forward_def prepare_def index_select_def front_end_def pack_padded_sequence_def
  initial_state_def layer_step_def unpack_project_residual_def projection_layer_def
  residual_connection_def finish_def pad_packed_sequence_def max_len_def feature_size_def
  pick_final_state_def sum_bidirectional_def slice_to_def slice_from_def
  tensor_add_def broadcast2_def sequence_err_def sum_cell_def sum_linear_def upt_rec

lemma build_layers_error:
  "build_layers lib a p d n layers acc = Inl e \<Longrightarrow> e = ValueError rnn_type_message"
proof (induction layers arbitrary: acc)
  case Nil
  then show ?case by simp
next
  case (Cons i rest)
  obtain rs ps where acc: "acc = (rs, ps)" by (cases acc)
  from Cons.prems show ?case
    unfolding acc
    by (auto simp: Let_def ebind_eq_Inl split: if_splits dest: Cons.IH)
qed

lemma finish_Inr:
  assumes "finish enc lens perm s = Inr r"
  shows "\<exists>packed_sub h_sub h_n.
           sub_snapshot s = Some (packed_sub, h_sub) \<and> cur_h_n s = Some h_n
         \<and> snd (pad_packed_sequence (cur_outputs s) (batch_first enc)) = lens
         \<and> snd (pad_packed_sequence packed_sub (batch_first enc)) = lens
         \<and> perm_indices r = perm
         \<and> pick_final_state (num_directions enc) h_n = Inr (final_state_fw r)
         \<and> pick_final_state (num_directions enc) h_sub = Inr (final_state_fw_sub r)
         \<and> (if bidirectional enc \<and> merge_bidirectional enc
              then sum_bidirectional (num_units enc)
                     (fst (pad_packed_sequence (cur_outputs s) (batch_first enc))) = Inr (outputs r)
                 \<and> sum_bidirectional (num_units enc)
                     (fst (pad_packed_sequence packed_sub (batch_first enc))) = Inr (outputs_sub r)
              else outputs r = fst (pad_packed_sequence (cur_outputs s) (batch_first enc))
                 \<and> outputs_sub r = fst (pad_packed_sequence packed_sub (batch_first enc)))"
  using assms
  unfolding finish_def
  by (auto simp: ebind_eq_Inr split: prod.splits option.splits if_splits)

lemma forward_Inr:
  assumes "forward srt ih enc inputs lens v = Inr r"
  shows "\<exists>packed seq_len perm s.
           prepare srt enc inputs lens = Inr (packed, seq_len, perm)
         \<and> run_layers enc seq_len
              (ih (length inputs) (rnn_type enc) (num_units enc) (num_directions enc) (use_cuda enc) v)
              [0..<nat (num_layers enc)] (initial_state packed) = Inr s
         \<and> finish enc seq_len perm s = Inr r"
  using assms
  unfolding forward_def
  by (auto simp: ebind_eq_Inr Let_def split: prod.splits)

lemma forward_prepared:
  assumes "prepare srt enc inputs lens = Inr (packed, seq_len, perm)"
  shows "forward srt ih enc inputs lens v =
           ebind (run_layers enc seq_len
                    (ih (length inputs) (rnn_type enc) (num_units enc) (num_directions enc)
                       (use_cuda enc) v)
                    [0..<nat (num_layers enc)] (initial_state packed))
             (finish enc seq_len perm)"
  using assms by (simp add: forward_def)

lemma prepare_Inr:
  assumes "prepare srt enc inputs lens = Inr (packed, seq_len, perm)"
  shows "perm = snd (srt lens)
       \<and> (\<exists>sorted_inputs inputs'.
            index_select inputs perm = Inr sorted_inputs
          \<and> front_end enc sorted_inputs (fst (srt lens)) = Inr (inputs', seq_len)
          \<and> pack_padded_sequence inputs' seq_len (batch_first enc) = Inr packed)"
  using assms
  unfolding prepare_def
  by (auto simp: ebind_eq_Inr Let_def split: prod.splits)

lemma front_end_Inr:
  assumes "front_end enc sorted_inputs sorted_len = Inr (inputs', seq_len)"
  shows "(case (conv enc, conv_out_size enc) of
            (None, _) \<Rightarrow> seq_len = sorted_len
          | (Some c, Some out_size) \<Rightarrow> seq_len = map (\<lambda>x. out_size x 1) sorted_len
          | (Some c, None) \<Rightarrow> False)"
  using assms unfolding front_end_def
  by (auto simp: Let_def split: option.splits)

lemma layer_step_Inr:
  assumes "layer_step enc lens h_0 i s = Inr s'"
  shows "i < length (rnns enc)
       \<and> cur_h_n s' = Some (snd ((rnns enc ! i) (cur_outputs s) h_0))
       \<and> sub_snapshot s' = (if int i = num_layers_sub enc - 1
                              then Some (cur_outputs s', snd ((rnns enc ! i) (cur_outputs s) h_0))
                              else sub_snapshot s)
       \<and> (if residual enc \<or> dense_residual enc \<or> num_proj enc > 0
            then unpack_project_residual enc lens i (fst ((rnns enc ! i) (cur_outputs s) h_0))
                   (res_outputs_list s) = Inr (cur_outputs s', res_outputs_list s')
            else cur_outputs s' = fst ((rnns enc ! i) (cur_outputs s) h_0)
               \<and> res_outputs_list s' = res_outputs_list s)"
  using assms unfolding layer_step_def
  by (auto simp: ebind_eq_Inr Let_def split: prod.splits if_splits)

lemma unpack_project_residual_Inr:
  assumes "unpack_project_residual enc lens i out res = Inr (repacked, res')"
  shows "snd (pad_packed_sequence out (batch_first enc)) = lens
       \<and> (\<exists>projected summed.
            projection_layer enc i (fst (pad_packed_sequence out (batch_first enc))) = Inr projected
          \<and> residual_connection enc projected res = Inr (summed, res')
          \<and> pack_padded_sequence summed lens (batch_first enc) = Inr repacked)"
  using assms unfolding unpack_project_residual_def
  by (auto simp: ebind_eq_Inr Let_def split: prod.splits if_splits)

lemma unpack_project_residual_mismatch:
  assumes "snd (pad_packed_sequence out (batch_first enc)) \<noteq> lens"
  shows "unpack_project_residual enc lens i out res = Inl (AssertionError 234)"
  using assms unfolding unpack_project_residual_def
  by (auto simp: Let_def split: prod.splits)

lemma run_layers_append:
  "run_layers enc lens h_0 (xs @ ys) s =
     ebind (run_layers enc lens h_0 xs s) (run_layers enc lens h_0 ys)"
proof (induction xs arbitrary: s)
  case Nil
  then show ?case by simp
next
  case (Cons i xs)
  show ?case
    by (cases "layer_step enc lens h_0 i s") (simp_all add: Cons.IH)
qed

lemma upt_split_at:
  assumes "k < n"
  shows "[0..<n] = [0..<k] @ k # [Suc k..<n]"
proof -
  have "[0..<k + (n - k)] = [0..<k] @ [k..<k + (n - k)]"
    by (rule upt_add_eq_append) simp
  with assms show ?thesis by (simp add: upt_conv_Cons)
qed

lemma run_layers_at:
  assumes "run_layers enc lens h_0 [0..<n] s = Inr s'" and "k < n"
  shows "\<exists>s1 s2. run_layers enc lens h_0 [0..<k] s = Inr s1
               \<and> layer_step enc lens h_0 k s1 = Inr s2"
  using assms
  by (auto simp: upt_split_at [OF assms(2)] run_layers_append ebind_eq_Inr)

lemma pad_lengths:
  "snd (pad_packed_sequence p bf) = map (\<lambda>r. int (length r)) (seqs p)"
  by (simp add: pad_packed_sequence_def Let_def)

lemma sorted_rev_bounds:
  assumes "sorted (rev ls)" and "ls \<noteq> []" and "l \<in> set ls"
  shows "last ls \<le> l \<and> l \<le> hd (ls :: int list)"
proof -
  from assms(2) obtain x xs where ls: "ls = x # xs" by (cases ls) auto
  from assms(1) have s: "sorted (rev xs @ [x])" by (simp add: ls)
  then have "\<forall>y \<in> set xs. y \<le> x" by (auto simp: sorted_append)
  with assms(3) have up: "l \<le> hd ls" by (auto simp: ls)
  from assms(2) have "rev ls \<noteq> []" by simp
  then have "\<forall>y \<in> set (rev ls). hd (rev ls) \<le> y"
    using assms(1) by (cases "rev ls") auto
  with assms(3) have "hd (rev ls) \<le> l" by simp
  with assms(2) have "last ls \<le> l" by (simp add: hd_rev)
  with up show ?thesis by simp
qed

lemma pack_lengths:
  assumes "pack_padded_sequence t lens bf = Inr p"
  shows "map (\<lambda>r. int (length r)) (seqs p) = lens"
proof -
  define rows where "rows = (if bf then t else transpose t)"
  from assms have ne: "lens \<noteq> []" and pos: "0 < last lens"
    and len: "length lens = length rows" and srt: "sorted (rev lens)"
    and fits: "list_all (\<lambda>r. hd lens \<le> int (length r)) rows"
    and p: "p = PackedSequence (map2 (\<lambda>l r. take (nat l) r) lens rows)"
    unfolding pack_padded_sequence_def rows_def
    by (auto simp: Let_def split: if_splits)
  have "map (\<lambda>r. int (length r)) (map2 (\<lambda>l r. take (nat l) r) lens rows) = lens"
  proof (rule nth_equalityI)
    show "length (map (\<lambda>r. int (length r)) (map2 (\<lambda>l r. take (nat l) r) lens rows)) = length lens"
      using len by simp
  next
    fix i
    assume "i < length (map (\<lambda>r. int (length r)) (map2 (\<lambda>l r. take (nat l) r) lens rows))"
    then have i: "i < length lens" "i < length rows" using len by simp_all
    then have "lens ! i \<in> set lens" by simp
    from sorted_rev_bounds [OF srt ne this] pos have b: "0 < lens ! i" "lens ! i \<le> hd lens" by auto
    from fits i have "hd lens \<le> int (length (rows ! i))" by (simp add: list_all_length)
    with b have "min (length (rows ! i)) (nat (lens ! i)) = nat (lens ! i)" by linarith
    with b i show "map (\<lambda>r. int (length r)) (map2 (\<lambda>l r. take (nat l) r) lens rows) ! i = lens ! i"
      by simp
  qed
  with p show ?thesis by simp
qed

lemma descending_sort_length:
  assumes "descending_sort srt xs"
  shows "length (snd (srt xs)) = length xs" and "length (fst (srt xs)) = length xs"
proof -
  from assms have "size (mset (snd (srt xs))) = size (mset [0..<length xs])"
    by (simp only: descending_sort_def)
  then show l: "length (snd (srt xs)) = length xs" by simp
  from assms have "fst (srt xs) = map (\<lambda>i. xs ! i) (snd (srt xs))"
    by (simp only: descending_sort_def)
  then have "length (fst (srt xs)) = length (snd (srt xs))"
    by (metis length_map)
  with l show "length (fst (srt xs)) = length xs" by simp
qed

lemma prepare_length:
  assumes "prepare srt enc inputs lens = Inr (packed, seq_len, perm)"
    and "descending_sort srt lens"
  shows "length seq_len = length lens"
proof -
  from prepare_Inr [OF assms(1)] obtain sorted_inputs inputs' where
    "front_end enc sorted_inputs (fst (srt lens)) = Inr (inputs', seq_len)"
    by blast
  then show ?thesis
    unfolding front_end_def
    by (auto simp: Let_def descending_sort_length [OF assms(2)] split: option.splits)
qed

lemma layer_step_mismatch:
  assumes "residual enc \<or> dense_residual enc \<or> 0 < num_proj enc"
    and "k < length (rnns enc)"
    and "snd (pad_packed_sequence (fst ((rnns enc ! k) (cur_outputs s) h_0)) (batch_first enc)) \<noteq> lens"
  shows "layer_step enc lens h_0 k s = Inl (AssertionError 234)"
  using assms
  unfolding layer_step_def
  by (auto simp: Let_def unpack_project_residual_mismatch split: prod.splits)

lemma finish_mismatch:
  assumes "sub_snapshot s = Some (packed_sub, h_sub)"
  shows "snd (pad_packed_sequence (cur_outputs s) (batch_first enc)) \<noteq> lens
           \<Longrightarrow> finish enc lens perm s = Inl (AssertionError 264)"
    and "snd (pad_packed_sequence (cur_outputs s) (batch_first enc)) = lens
           \<Longrightarrow> snd (pad_packed_sequence packed_sub (batch_first enc)) \<noteq> lens
           \<Longrightarrow> finish enc lens perm s = Inl (AssertionError 265)"
  using assms
  unfolding finish_def
  by (auto simp: Let_def split: prod.splits)

lemma sequence_err_Inr:
  assumes "\<forall>x \<in> set xs. f x = Inr (g x)"
  shows "sequence_err (map f xs) = Inr (map g xs)"
  using assms by (induction xs) (simp_all add: sequence_err_def)

lemma broadcast2_same_length:
  assumes "length xs = length ys"
    and "\<forall>(x, y) \<in> set (zip xs ys). f x y = Inr (g x y)"
  shows "broadcast2 f xs ys = Inr (map2 g xs ys)"
proof -
  from assms(2) have "\<forall>p \<in> set (zip xs ys). (\<lambda>(x, y). f x y) p = Inr ((\<lambda>(x, y). g x y) p)"
    by auto
  from sequence_err_Inr [OF this] assms(1) show ?thesis
    by (simp add: broadcast2_def)
qed

lemma tensor_add_same_size:
  assumes "has_size a n m k" and "has_size b n m k"
  shows "tensor_add a b = Inr (map2 (map2 (map2 (+))) a b)"
    and "has_size (map2 (map2 (map2 (+))) a b) n m k"
proof -
  have vec: "broadcast2 (\<lambda>x y. Inr (x + y)) u v = Inr (map2 (+) u v)"
    if "length u = length v" for u v :: "'a list"
    using that by (intro broadcast2_same_length) auto
  have row: "broadcast2 (broadcast2 (\<lambda>x y. Inr (x + y))) p q = Inr (map2 (map2 (+)) p q)"
    if "length p = m" "length q = m" "list_all (\<lambda>v. length v = k) p" "list_all (\<lambda>v. length v = k) q"
    for p q :: "'a list list"
  proof (intro broadcast2_same_length)
    show "length p = length q" using that by simp
    show "\<forall>(x, y)\<in>set (zip p q). broadcast2 (\<lambda>x y. Inr (x + y)) x y = Inr (map2 (+) x y)"
    proof clarify
      fix x y assume "(x, y) \<in> set (zip p q)"
      then have "x \<in> set p" "y \<in> set q" by (auto dest: set_zip_leftD set_zip_rightD)
      with that have "length x = length y" by (auto simp: list_all_iff)
      then show "broadcast2 (\<lambda>x y. Inr (x + y)) x y = Inr (map2 (+) x y)" by (rule vec)
    qed
  qed
  from assms have la: "length a = n" and lb: "length b = n"
    and ra: "\<forall>p \<in> set a. length p = m \<and> list_all (\<lambda>v. length v = k) p"
    and rb: "\<forall>q \<in> set b. length q = m \<and> list_all (\<lambda>v. length v = k) q"
    by (auto simp: has_size_def list_all_iff)
  show "tensor_add a b = Inr (map2 (map2 (map2 (+))) a b)"
    unfolding tensor_add_def
  proof (intro broadcast2_same_length)
    show "length a = length b" using la lb by simp
    show "\<forall>(x, y)\<in>set (zip a b).
            broadcast2 (broadcast2 (\<lambda>x y. Inr (x + y))) x y = Inr (map2 (map2 (+)) x y)"
    proof clarify
      fix x y assume "(x, y) \<in> set (zip a b)"
      then have "x \<in> set a" "y \<in> set b" by (auto dest: set_zip_leftD set_zip_rightD)
      with ra rb show "broadcast2 (broadcast2 (\<lambda>x y. Inr (x + y))) x y = Inr (map2 (map2 (+)) x y)"
        by (intro row) auto
    qed
  qed
  have rows: "length r = m \<and> (\<forall>v \<in> set r. length v = k)"
    if "r \<in> set (map2 (map2 (map2 (+))) a b)" for r
  proof -
    from that obtain x y where xy: "(x, y) \<in> set (zip a b)" and r: "r = map2 (map2 (+)) x y"
      by auto
    then have "x \<in> set a" "y \<in> set b" by (auto dest: set_zip_leftD set_zip_rightD)
    with ra rb have xm: "length x = m" "length y = m"
      and xk: "\<forall>v \<in> set x. length v = k" and yk: "\<forall>v \<in> set y. length v = k"
      by (auto simp: list_all_iff)
    have "length v = k" if "v \<in> set r" for v
    proof -
      from that obtain u w where "(u, w) \<in> set (zip x y)" and v: "v = map2 (+) u w"
        unfolding r by auto
      then have "u \<in> set x" "w \<in> set y" by (auto dest: set_zip_leftD set_zip_rightD)
      with xk yk v show ?thesis by simp
    qed
    with xm r show ?thesis by simp
  qed
  have "length (map2 (map2 (map2 (+))) a b) = n" using la lb by simp
  with rows show "has_size (map2 (map2 (map2 (+))) a b) n m k"
    unfolding has_size_def list_all_iff by blast
qed

lemma sum_lower_same_size:
  assumes "has_size x n m k" and "\<forall>t \<in> set res. has_size t n m k"
  shows "sum_lower x res = Inr (foldl (\<lambda>a b. map2 (map2 (map2 (+))) a b) x res)"
  using assms
proof (induction res arbitrary: x)
  case Nil
  then show ?case by simp
next
  case (Cons t res)
  then have t: "has_size t n m k" by simp
  from tensor_add_same_size [OF Cons.prems(1) t] Cons.IH [of "map2 (map2 (map2 (+))) x t"] Cons.prems(2)
  show ?case by simp
qed

lemma residual_connection_Inr:
  assumes "residual_connection enc x res = Inr (summed, res')"
  shows "if residual enc \<or> dense_residual enc
         then sum_lower x res = Inr summed \<and> res' = (if residual enc then [summed] else res @ [summed])
         else summed = x \<and> res' = res"
  using assms unfolding residual_connection_def
  by (auto simp: ebind_eq_Inr split: if_splits)

lemma projection_layer_Inr:
  assumes "projection_layer enc i x = Inr y"
  shows "if 0 < num_proj enc \<and> int i \<noteq> num_layers enc - 1
         then i < length (projections enc) \<and> y = (projections enc ! i) x
         else y = x"
  using assms unfolding projection_layer_def
  by (auto split: if_splits)

lemma init_example: "init example_nn example_args = Inr example_encoder"
  by (simp add: init_def example_args_def example_nn_def example_encoder_def upt_rec)

lemma init_projection:
  "init example_nn (example_args\<lparr>arg_num_proj := Some 2\<rparr>) = Inr projection_encoder"
  by (simp add: init_def example_args_def example_nn_def example_encoder_def
        projection_encoder_def upt_rec)

lemma replicate_2: "replicate 2 x = [x, x]"
  by (simp add: numeral_2_eq_2)

lemma init_bidirectional:
  "init example_nn (example_args\<lparr>arg_bidirectional := True, arg_num_units := 2\<rparr>)
     = Inr bidirectional_encoder"
  by (simp add: init_def example_args_def example_nn_def bidirectional_encoder_def upt_rec)

lemma layer_step_hidden_size:
  fixes enc :: "('a::{zero,plus}, 'h) encoder"
  assumes contract: "\<forall>cell \<in> set (rnns enc). cell_contract nd u hx cell"
    and step: "layer_step enc lens hx i s = Inr s'"
    and sub: "\<forall>ps hs. sub_snapshot s = Some (ps, hs) \<longrightarrow> has_size hs nd (length (seqs ps)) u"
  shows "(\<exists>h. cur_h_n s' = Some h \<and> has_size h nd (length (seqs (cur_outputs s'))) u)
       \<and> (\<forall>ps hs. sub_snapshot s' = Some (ps, hs) \<longrightarrow> has_size hs nd (length (seqs ps)) u)"
proof -
  let ?cell = "rnns enc ! i"
  let ?out = "fst (?cell (cur_outputs s) hx)"
  let ?h = "snd (?cell (cur_outputs s) hx)"
  note st = layer_step_Inr [OF step]
  from st have "?cell \<in> set (rnns enc)" by simp
  with contract have c: "cell_contract nd u hx ?cell" by blast
  then have lens_out: "map length (seqs ?out) = map length (seqs (cur_outputs s))"
    and h: "has_size ?h nd (length (seqs (cur_outputs s))) u"
    by (simp_all add: cell_contract_def)
  from lens_out have same: "length (seqs ?out) = length (seqs (cur_outputs s))"
    by (rule map_eq_imp_length_eq)
  have batch: "length (seqs (cur_outputs s')) = length (seqs (cur_outputs s))"
  proof (cases "residual enc \<or> dense_residual enc \<or> num_proj enc > 0")
    case True
    with st have "unpack_project_residual enc lens i ?out (res_outputs_list s)
                    = Inr (cur_outputs s', res_outputs_list s')"
      by simp
    from unpack_project_residual_Inr [OF this] obtain summed where
      l: "snd (pad_packed_sequence ?out (batch_first enc)) = lens"
      and p: "pack_padded_sequence summed lens (batch_first enc) = Inr (cur_outputs s')"
      by blast
    from l have "length (seqs ?out) = length lens"
      by (auto simp: pad_lengths dest: arg_cong [where f = length])
    moreover from pack_lengths [OF p] have "length (seqs (cur_outputs s')) = length lens"
      by (auto dest: arg_cong [where f = length])
    ultimately show ?thesis using same by simp
  next
    case False
    with st same show ?thesis by simp
  qed
  from st h batch have 1: "\<exists>h. cur_h_n s' = Some h \<and> has_size h nd (length (seqs (cur_outputs s'))) u"
    by simp
  have 2: "\<forall>ps hs. sub_snapshot s' = Some (ps, hs) \<longrightarrow> has_size hs nd (length (seqs ps)) u"
    using st sub h batch by (auto split: if_splits)
  from 1 2 show ?thesis by blast
qed

lemma run_layers_hidden_size:
  fixes enc :: "('a::{zero,plus}, 'h) encoder"
  assumes contract: "\<forall>cell \<in> set (rnns enc). cell_contract nd u hx cell"
    and run: "run_layers enc lens hx layers s = Inr s'"
    and cur: "\<forall>h. cur_h_n s = Some h \<longrightarrow> has_size h nd (length (seqs (cur_outputs s))) u"
    and sub: "\<forall>ps hs. sub_snapshot s = Some (ps, hs) \<longrightarrow> has_size hs nd (length (seqs ps)) u"
  shows "(\<forall>h. cur_h_n s' = Some h \<longrightarrow> has_size h nd (length (seqs (cur_outputs s'))) u)
       \<and> (\<forall>ps hs. sub_snapshot s' = Some (ps, hs) \<longrightarrow> has_size hs nd (length (seqs ps)) u)"
  using run cur sub
proof (induction layers arbitrary: s)
  case Nil
  then show ?case by simp
next
  case (Cons i layers)
  from Cons.prems(1) obtain s1 where
    step: "layer_step enc lens hx i s = Inr s1"
    and rest: "run_layers enc lens hx layers s1 = Inr s'"
    by (auto simp: ebind_eq_Inr)
  from layer_step_hidden_size [OF contract step Cons.prems(3)]
  have "\<forall>h. cur_h_n s1 = Some h \<longrightarrow> has_size h nd (length (seqs (cur_outputs s1))) u"
    and "\<forall>ps hs. sub_snapshot s1 = Some (ps, hs) \<longrightarrow> has_size hs nd (length (seqs ps)) u"
    by auto
  with Cons.IH [OF rest] show ?case by blast
qed

lemma pick_final_state_two:
  assumes "has_size h 2 b u"
  shows "pick_final_state 2 h = Inr [h ! (length h - 2)]"
    and "has_size [h ! (length h - 2)] 1 b u"
proof -
  from assms obtain x y where h: "h = [x, y]"
    by (cases h; cases "tl h") (auto simp: has_size_def)
  show "pick_final_state 2 h = Inr [h ! (length h - 2)]"
    by (simp add: pick_final_state_def h)
  from assms show "has_size [h ! (length h - 2)] 1 b u"
    by (simp add: has_size_def h)
qed

lemma pick_final_state_one:
  assumes "has_size h 1 b u"
  shows "pick_final_state 1 h = Inr [last h]"
    and "has_size [last h] 1 b u"
proof -
  from assms obtain x where h: "h = [x]"
    by (cases h) (auto simp: has_size_def)
  show "pick_final_state 1 h = Inr [last h]"
    by (simp add: pick_final_state_def h)
  from assms show "has_size [last h] 1 b u"
    by (simp add: has_size_def h)
qed

lemma sum_cell_contract:
  "cell_contract (if bidir then 2 else 1) (nat hidden) hx (sum_cell n hidden bf d bidir)"
  by (simp add: cell_contract_def sum_cell_def has_size_def list_all_iff comp_def)

lemma forward_example:
  "forward stable_sort_descending no_hidden example_encoder example_inputs [3, 5, 4] True =
     Inr \<lparr> outputs = example_padded,
           final_state_fw = [[[10], [12], [3]]],
           outputs_sub = example_padded,
           final_state_fw_sub = [[[10], [12], [3]]],
           perm_indices = [1, 2, 0] \<rparr>"
  by (simp add: forward_eval stable_sort_354 example_encoder_def example_inputs_def
        example_padded_def)

lemma forward_bidirectional_example:
  "forward stable_sort_descending no_hidden bidirectional_encoder example_inputs [3, 5, 4] True =
     Inr \<lparr> outputs = [[[8, 8, 8, 8], [8, 8, 8, 8], [8, 8, 8, 8], [8, 8, 8, 8], [8, 8, 8, 8]],
                      [[12, 12, 12, 12], [12, 12, 12, 12], [12, 12, 12, 12], [12, 12, 12, 12],
                       [0, 0, 0, 0]],
                      [[4, 4, 4, 4], [4, 4, 4, 4], [4, 4, 4, 4], [0, 0, 0, 0], [0, 0, 0, 0]]],
           final_state_fw = [[[40, 40], [48, 48], [12, 12]]],
           outputs_sub = [[[2, 2, 2, 2], [2, 2, 2, 2], [2, 2, 2, 2], [2, 2, 2, 2], [2, 2, 2, 2]],
                          [[3, 3, 3, 3], [3, 3, 3, 3], [3, 3, 3, 3], [3, 3, 3, 3], [0, 0, 0, 0]],
                          [[1, 1, 1, 1], [1, 1, 1, 1], [1, 1, 1, 1], [0, 0, 0, 0], [0, 0, 0, 0]]],
           final_state_fw_sub = [[[10, 10], [12, 12], [3, 3]]],
           perm_indices = [1, 2, 0] \<rparr>"
  by (simp add: forward_eval stable_sort_354 bidirectional_encoder_def example_inputs_def
        eval_nat_numeral)

lemma transpose_transpose_rectangle:
  fixes xs :: "'a list list"
  assumes "\<forall>r \<in> set xs. length r = n" and "0 < n"
  shows "transpose (transpose xs) = xs"
proof -
  from assms(1) have "map length xs = replicate (length xs) n"
    by (induction xs) auto
  then have "sorted (rev (map length xs))" by simp
  then have "transpose (transpose xs) = takeWhile (\<lambda>x. x \<noteq> []) xs"
    by (rule transpose_transpose)
  also from assms have "\<forall>r \<in> set xs. r \<noteq> []" by auto
  then have "takeWhile (\<lambda>x. x \<noteq> []) xs = xs" by simp
  finally show ?thesis .
qed

lemma pad_sizes_543:
  fixes p :: "'a::zero packed"
  assumes "snd (pad_packed_sequence p bf) = [5, 4, 3]"
  shows "time_size bf (fst (pad_packed_sequence p bf)) = 5"
    and "if bf then leading_sizes (fst (pad_packed_sequence p bf)) 3 5
         else leading_sizes (fst (pad_packed_sequence p bf)) 5 3"
proof -
  from assms have "map (\<lambda>r. int (length r)) (seqs p) = [5, 4, 3]"
    by (simp add: pad_lengths)
  then obtain a b c where rows: "seqs p = [a, b, c]"
    and l: "length a = 5" "length b = 4" "length c = 3"
    by (auto simp: map_eq_Cons_conv)
  define z where "z = replicate (feature_size [a, b, c]) (0 :: 'a)"
  let ?out = "[a @ replicate 0 z, b @ replicate 1 z, c @ replicate 2 z]"
  have padded: "fst (pad_packed_sequence p bf) = (if bf then ?out else transpose ?out)"
    by (simp add: pad_packed_sequence_def Let_def rows l max_len_def z_def)
  have rect: "transpose ?out = map (\<lambda>i. map (\<lambda>j. ?out ! j ! i) [0..<length ?out]) [0..<5]"
    by (rule transpose_rectangle) (auto simp: l less_Suc_eq)
  show "time_size bf (fst (pad_packed_sequence p bf)) = 5"
    by (simp add: padded time_size_def size0_def size1_def l length_transpose)
  show "if bf then leading_sizes (fst (pad_packed_sequence p bf)) 3 5
        else leading_sizes (fst (pad_packed_sequence p bf)) 5 3"
    unfolding padded rect
    by (simp add: leading_sizes_def l list_all_iff)
qed

lemma layer_step_plain:
  fixes enc :: "('a::{zero,plus}, 'h) encoder"
  assumes "\<not> residual enc" "\<not> dense_residual enc" "num_proj enc \<le> 0" "i < length (rnns enc)"
  shows "layer_step enc lens hx i s =
           Inr \<lparr> cur_outputs = fst ((rnns enc ! i) (cur_outputs s) hx),
                 cur_h_n = Some (snd ((rnns enc ! i) (cur_outputs s) hx)),
                 res_outputs_list = res_outputs_list s,
                 sub_snapshot =
                   (if int i = num_layers_sub enc - 1
                    then Some (fst ((rnns enc ! i) (cur_outputs s) hx),
                               snd ((rnns enc ! i) (cur_outputs s) hx))
                    else sub_snapshot s) \<rparr>"
  using assms
  by (simp add: layer_step_def Let_def split: prod.splits)

lemma finish_plain:
  fixes enc :: "('a::{zero,plus}, 'h) encoder"
  assumes "sub_snapshot s = Some (packed_sub, h_sub)" and "cur_h_n s = Some h_n"
    and "snd (pad_packed_sequence (cur_outputs s) (batch_first enc)) = lens"
    and "snd (pad_packed_sequence packed_sub (batch_first enc)) = lens"
    and "\<not> bidirectional enc"
    and "pick_final_state (num_directions enc) h_n = Inr a"
    and "pick_final_state (num_directions enc) h_sub = Inr b"
  shows "\<exists>r. finish enc lens perm s = Inr r"
  using assms
  by (simp add: finish_def Let_def case_prod_beta)

lemma sorted_uminus_rev:
  fixes xs :: "int list"
  assumes "sorted (map uminus xs)"
  shows "sorted (rev xs)"
  using assms by (induction xs) (auto simp: sorted_append)

lemma sort_key_descending:
  fixes xs :: "int list"
  assumes "mset idx = mset [0..<length xs]"
  shows "descending_sort (\<lambda>ys. (map (\<lambda>i. ys ! i) (sort_key (\<lambda>i. - (xs ! i)) idx),
                                  sort_key (\<lambda>i. - (xs ! i)) idx)) xs"
proof -
  have "sorted (map (\<lambda>i. - (xs ! i)) (sort_key (\<lambda>i. - (xs ! i)) idx))"
    by (rule sorted_sort_key)
  then have "sorted (map uminus (map (\<lambda>i. xs ! i) (sort_key (\<lambda>i. - (xs ! i)) idx)))"
    by (simp add: comp_def)
  then have "sorted (rev (map (\<lambda>i. xs ! i) (sort_key (\<lambda>i. - (xs ! i)) idx)))"
    by (rule sorted_uminus_rev)
  with assms show ?thesis by (simp add: descending_sort_def)
qed

lemma stable_sort_contract: "descending_sort stable_sort_descending xs"
  using sort_key_descending [of "[0..<length xs]" xs]
  by (simp add: descending_sort_def stable_sort_descending_def Let_def)


lemma perm_set:
  assumes "mset perm = mset [0..<n]"
  shows "set perm = {0..<n}" and "length perm = n" and "distinct perm"
proof -
  from assms have "set_mset (mset perm) = set_mset (mset [0..<n])" by simp
  then show "set perm = {0..<n}" by simp
  from assms have "size (mset perm) = size (mset [0..<n])" by simp
  then show "length perm = n" by simp
  from assms have "distinct perm = distinct [0..<n]" by (metis distinct_count_atmost_1 set_mset_mset)
  then show "distinct perm" by simp
qed

lemma descending_sort_three:
  assumes "descending_sort srt [x0, x1, x2]"
  obtains a b c where "srt [x0, x1, x2] = ([[x0, x1, x2] ! a, [x0, x1, x2] ! b, [x0, x1, x2] ! c], [a, b, c])"
    and "a < 3" "b < 3" "c < 3" and "a \<noteq> b" "a \<noteq> c" "b \<noteq> c"
    and "[x0, x1, x2] ! c \<le> [x0, x1, x2] ! b" "[x0, x1, x2] ! b \<le> [x0, x1, x2] ! a"
proof -
  let ?xs = "[x0, x1, x2]"
  from assms have m: "mset (snd (srt ?xs)) = mset [0..<length ?xs]"
    and v: "fst (srt ?xs) = map (\<lambda>i. ?xs ! i) (snd (srt ?xs))"
    and d: "sorted (rev (fst (srt ?xs)))"
    unfolding descending_sort_def by blast+
  note p = perm_set [OF m]
  from p(2) obtain a b c where abc: "snd (srt ?xs) = [a, b, c]"
    by (auto simp: length_Suc_conv)
  from p(1) abc have "\<forall>i \<in> set [a, b, c]. i < length ?xs"
    by (metis atLeastLessThan_iff)
  then have bounds: "a < 3" "b < 3" "c < 3" by simp_all
  from p(3) abc have ne: "a \<noteq> b" "a \<noteq> c" "b \<noteq> c" by auto
  from v abc have f: "fst (srt ?xs) = [?xs ! a, ?xs ! b, ?xs ! c]" by simp
  from d f have ord: "?xs ! c \<le> ?xs ! b" "?xs ! b \<le> ?xs ! a" by auto
  from abc f have "srt ?xs = ([?xs ! a, ?xs ! b, ?xs ! c], [a, b, c])"
    by (simp add: prod_eq_iff)
  then show ?thesis using bounds ne ord by (rule that)
qed

lemma pick_534:
  fixes a b c :: nat
  assumes "a < 3" "b < 3" "c < 3" "a \<noteq> b" "a \<noteq> c" "b \<noteq> c"
    and "[5, 3, 4 :: int] ! c \<le> [5, 3, 4] ! b" "[5, 3, 4 :: int] ! b \<le> [5, 3, 4] ! a"
  shows "a = 0 \<and> b = 2 \<and> c = 1"
proof -
  from assms(1-3) have "a = 0 \<or> a = 1 \<or> a = 2" "b = 0 \<or> b = 1 \<or> b = 2" "c = 0 \<or> c = 1 \<or> c = 2"
    by arith+
  with assms(4-8) show ?thesis
    by (elim disjE) simp_all
qed

lemma descending_sort_534:
  assumes "descending_sort srt [5, 3, 4]"
  shows "srt [5, 3, 4] = ([5, 4, 3], [0, 2, 1])"
proof (rule descending_sort_three [OF assms])
  fix a b c
  assume s: "srt [5, 3, 4] = ([[5, 3, 4] ! a, [5, 3, 4] ! b, [5, 3, 4] ! c], [a, b, c])"
    and "a < 3" "b < 3" "c < 3" "a \<noteq> b" "a \<noteq> c" "b \<noteq> c"
    and "[5, 3, 4 :: int] ! c \<le> [5, 3, 4] ! b" "[5, 3, 4 :: int] ! b \<le> [5, 3, 4] ! a"
  then have "a = 0 \<and> b = 2 \<and> c = 1" by (intro pick_534)
  with s show ?thesis by simp
qed

lemma pick_354:
  fixes a b c :: nat
  assumes "a < 3" "b < 3" "c < 3" "a \<noteq> b" "a \<noteq> c" "b \<noteq> c"
    and "[3, 5, 4 :: int] ! c \<le> [3, 5, 4] ! b" "[3, 5, 4 :: int] ! b \<le> [3, 5, 4] ! a"
  shows "a = 1 \<and> b = 2 \<and> c = 0"
proof -
  from assms(1-3) have "a = 0 \<or> a = 1 \<or> a = 2" "b = 0 \<or> b = 1 \<or> b = 2" "c = 0 \<or> c = 1 \<or> c = 2"
    by arith+
  with assms(4-8) show ?thesis
    by (elim disjE) simp_all
qed

lemma descending_sort_354:
  assumes "descending_sort srt [3, 5, 4]"
  shows "srt [3, 5, 4] = ([5, 4, 3], [1, 2, 0])"
proof (rule descending_sort_three [OF assms])
  fix a b c
  assume s: "srt [3, 5, 4] = ([[3, 5, 4] ! a, [3, 5, 4] ! b, [3, 5, 4] ! c], [a, b, c])"
    and "a < 3" "b < 3" "c < 3" "a \<noteq> b" "a \<noteq> c" "b \<noteq> c"
    and "[3, 5, 4 :: int] ! c \<le> [3, 5, 4] ! b" "[3, 5, 4 :: int] ! b \<le> [3, 5, 4] ! a"
  then have "a = 1 \<and> b = 2 \<and> c = 0" by (intro pick_354)
  with s show ?thesis by simp
qed

lemma prepare_scenario:
  assumes "conv enc = None" and "has_size inputs 3 T F" and "5 \<le> T"
    and "descending_sort srt [5, 3, 4]"
  shows "\<exists>packed. prepare srt enc inputs [5, 3, 4] = Inr (packed, [5, 4, 3], [0, 2, 1])
                \<and> map length (seqs packed) = [5, 4, 3]"
proof -
  from assms(2) obtain x0 x1 x2 where inputs: "inputs = [x0, x1, x2]"
    and l: "length x0 = T" "length x1 = T" "length x2 = T"
    by (auto simp: has_size_def length_Suc_conv numeral_3_eq_3)
  have "\<forall>r \<in> set [x0, x2, x1]. length r = T" using l by simp
  moreover from assms(3) have "0 < T" by simp
  ultimately have tt: "transpose (transpose [x0, x2, x1]) = [x0, x2, x1]"
    by (rule transpose_transpose_rectangle)
  have "prepare srt enc inputs [5, 3, 4]
          = Inr (PackedSequence [take 5 x0, take 4 x2, take 3 x1], [5, 4, 3], [0, 2, 1])"
    using assms(1,3) l
    by (simp add: prepare_def descending_sort_534 [OF assms(4)] index_select_def inputs front_end_def
          pack_padded_sequence_def tt Let_def del: transpose.simps)
  moreover have "map length (seqs (PackedSequence [take 5 x0, take 4 x2, take 3 x1])) = [5, 4, 3]"
    using assms(3) l by simp
  ultimately show ?thesis
    by (intro exI [of _ "PackedSequence [take 5 x0, take 4 x2, take 3 x1]"] conjI)
qed






lemma forward_scenario_example:
  "forward stable_sort_descending no_hidden example_encoder scenario_inputs [5, 3, 4] True =
     Inr \<lparr> outputs = [[[1], [1], [1], [1], [1]], [[3], [3], [3], [3], [0]], [[2], [2], [2], [0], [0]]],
           final_state_fw = [[[5], [12], [6]]],
           outputs_sub = [[[1], [1], [1], [1], [1]], [[3], [3], [3], [3], [0]], [[2], [2], [2], [0], [0]]],
           final_state_fw_sub = [[[5], [12], [6]]],
           perm_indices = [0, 2, 1] \<rparr>"
  by (simp add: forward_eval stable_sort_534 example_encoder_def scenario_inputs_def)



subsection \<open>The constructor\<close>

text \<open>
  C4. Whatever the other arguments, constructing the encoder with both \<open>residual\<close>
  and \<open>dense_residual\<close> set raises: the \<open>ValueError\<close> of the sub-layer check when
  that check fails first, else the \<open>AssertionError\<close> of line 91. With at most one of
  the two set, construction never raises the \<open>AssertionError\<close> of line 91.
\<close>

theorem init_residual_exclusive:
  "(arg_residual a \<and> arg_dense_residual a \<longrightarrow>
      init lib a = (if arg_num_layers_sub a < 1 \<or> arg_num_layers a < arg_num_layers_sub a
                    then Inl (ValueError ''Set num_layers_sub between 1 to num_layers.'')
                    else Inl (AssertionError 91)))
   \<and> (\<not> (arg_residual a \<and> arg_dense_residual a) \<longrightarrow> init lib a \<noteq> Inl (AssertionError 91))"
proof (intro conjI impI)
  assume "arg_residual a \<and> arg_dense_residual a"
  then show "init lib a = (if arg_num_layers_sub a < 1 \<or> arg_num_layers a < arg_num_layers_sub a
                    then Inl (ValueError ''Set num_layers_sub between 1 to num_layers.'')
                    else Inl (AssertionError 91))"
    by (simp add: init_def Let_def)
next
  assume one: "\<not> (arg_residual a \<and> arg_dense_residual a)"
  show "init lib a \<noteq> Inl (AssertionError 91)"
  proof
    assume "init lib a = Inl (AssertionError 91)"
    with one show False
      by (auto simp: init_def Let_def ebind_eq_Inl split: if_splits prod.splits
               dest!: build_layers_error)
  qed
qed

theorem init_residual_exclusive_witness:
  "init example_nn (example_args\<lparr>arg_residual := True, arg_dense_residual := True\<rparr>)
     = Inl (AssertionError 91)
   \<and> init example_nn (example_args\<lparr>arg_residual := True\<rparr>) \<noteq> Inl (AssertionError 91)"
  using init_residual_exclusive
          [where a = "example_args\<lparr>arg_residual := True, arg_dense_residual := True\<rparr>"
             and lib = example_nn]
        init_residual_exclusive
          [where a = "example_args\<lparr>arg_residual := True\<rparr>" and lib = example_nn]
  by (simp add: example_args_def)

text \<open>
  C5. Whatever the other arguments, a sub-layer index below 1 or above the number of
  layers makes the constructor raise its \<open>ValueError\<close> (the first statement of the
  constructor, before anything is built); an index between 1 and the number of layers
  never raises it.
\<close>

theorem init_sub_layer_range:
  "(arg_num_layers_sub a < 1 \<or> arg_num_layers a < arg_num_layers_sub a \<longrightarrow>
      init lib a = Inl (ValueError ''Set num_layers_sub between 1 to num_layers.''))
   \<and> (1 \<le> arg_num_layers_sub a \<and> arg_num_layers_sub a \<le> arg_num_layers a \<longrightarrow>
      init lib a \<noteq> Inl (ValueError ''Set num_layers_sub between 1 to num_layers.''))"
proof (intro conjI impI)
  assume "arg_num_layers_sub a < 1 \<or> arg_num_layers a < arg_num_layers_sub a"
  then show "init lib a = Inl (ValueError ''Set num_layers_sub between 1 to num_layers.'')"
    by (simp add: init_def)
next
  assume ok: "1 \<le> arg_num_layers_sub a \<and> arg_num_layers_sub a \<le> arg_num_layers a"
  show "init lib a \<noteq> Inl (ValueError ''Set num_layers_sub between 1 to num_layers.'')"
  proof
    assume "init lib a = Inl (ValueError ''Set num_layers_sub between 1 to num_layers.'')"
    with ok show False
      by (auto simp: init_def Let_def ebind_eq_Inl rnn_type_message_def
               split: if_splits prod.splits dest!: build_layers_error)
  qed
qed

theorem init_sub_layer_range_witness:
  "init example_nn (example_args\<lparr>arg_num_layers_sub := 0\<rparr>)
     = Inl (ValueError ''Set num_layers_sub between 1 to num_layers.'')
   \<and> init example_nn (example_args\<lparr>arg_num_layers_sub := 3\<rparr>)
     = Inl (ValueError ''Set num_layers_sub between 1 to num_layers.'')
   \<and> init example_nn (example_args\<lparr>arg_num_layers_sub := 2\<rparr>)
     \<noteq> Inl (ValueError ''Set num_layers_sub between 1 to num_layers.'')"
  using init_sub_layer_range [where a = "example_args\<lparr>arg_num_layers_sub := 0\<rparr>" and lib = example_nn]
        init_sub_layer_range [where a = "example_args\<lparr>arg_num_layers_sub := 3\<rparr>" and lib = example_nn]
        init_sub_layer_range [where a = "example_args\<lparr>arg_num_layers_sub := 2\<rparr>" and lib = example_nn]
  by (simp add: example_args_def)

subsection \<open>The forward computation\<close>

text \<open>
  C10. When the sub-task layer is the last layer, whatever \<open>forward\<close> returns has the
  sub-task outputs equal to the main outputs and the sub-task final state equal to
  the main final state: the snapshot of the last pass of the loop is the loop's result.
\<close>

theorem sub_equals_main_at_top:
  assumes "num_layers_sub enc = num_layers enc"
    and "forward srt ih enc inputs lens v = Inr r"
  shows "outputs_sub r = outputs r \<and> final_state_fw_sub r = final_state_fw r"
proof -
  from forward_Inr [OF assms(2)] obtain seq_len perm packed s h_0 where
    run: "run_layers enc seq_len h_0 [0..<nat (num_layers enc)] (initial_state packed) = Inr s"
    and fin: "finish enc seq_len perm s = Inr r"
    by blast
  from finish_Inr [OF fin] obtain packed_sub h_sub h_n where
    sub: "sub_snapshot s = Some (packed_sub, h_sub)" and hn: "cur_h_n s = Some h_n"
    and fw: "pick_final_state (num_directions enc) h_n = Inr (final_state_fw r)"
    and fw_sub: "pick_final_state (num_directions enc) h_sub = Inr (final_state_fw_sub r)"
    and outs: "if bidirectional enc \<and> merge_bidirectional enc
              then sum_bidirectional (num_units enc)
                     (fst (pad_packed_sequence (cur_outputs s) (batch_first enc))) = Inr (outputs r)
                 \<and> sum_bidirectional (num_units enc)
                     (fst (pad_packed_sequence packed_sub (batch_first enc))) = Inr (outputs_sub r)
              else outputs r = fst (pad_packed_sequence (cur_outputs s) (batch_first enc))
                 \<and> outputs_sub r = fst (pad_packed_sequence packed_sub (batch_first enc))"
    by blast
  have pos: "0 < nat (num_layers enc)"
  proof (rule ccontr)
    assume "\<not> 0 < nat (num_layers enc)"
    with run have "s = initial_state packed" by simp
    with sub show False by (simp add: initial_state_def)
  qed
  then obtain n where n: "nat (num_layers enc) = Suc n"
    by (cases "nat (num_layers enc)") auto
  then have last_layer: "int n = num_layers_sub enc - 1" using assms(1) by linarith
  from run n obtain s1 where "layer_step enc seq_len h_0 n s1 = Inr s"
    by (auto simp: run_layers_append ebind_eq_Inr)
  from layer_step_Inr [OF this] last_layer
  have "\<exists>h. cur_h_n s = Some h \<and> sub_snapshot s = Some (cur_outputs s, h)" by simp
  with sub hn have eq: "packed_sub = cur_outputs s" "h_sub = h_n" by auto
  from outs eq have "outputs_sub r = outputs r"
    by (auto split: if_splits)
  moreover from fw fw_sub eq have "final_state_fw_sub r = final_state_fw r" by simp
  ultimately show ?thesis by simp
qed

lemma forward_top_example:
  "forward stable_sort_descending no_hidden (example_encoder\<lparr>num_layers_sub := 2\<rparr>) example_inputs [3, 5, 4] True =
     Inr \<lparr> outputs = [[[2], [2], [2], [2], [2]], [[3], [3], [3], [3], [0]], [[1], [1], [1], [0], [0]]],
           final_state_fw = [[[10], [12], [3]]],
           outputs_sub = [[[2], [2], [2], [2], [2]], [[3], [3], [3], [3], [0]], [[1], [1], [1], [0], [0]]],
           final_state_fw_sub = [[[10], [12], [3]]],
           perm_indices = [1, 2, 0] \<rparr>"
  by (simp add: forward_eval stable_sort_354 example_encoder_def example_inputs_def)

theorem sub_equals_main_at_top_witness:
  "num_layers_sub (example_encoder\<lparr>num_layers_sub := 2\<rparr>)
     = num_layers (example_encoder\<lparr>num_layers_sub := 2\<rparr>)
   \<and> (\<exists>r. forward stable_sort_descending no_hidden (example_encoder\<lparr>num_layers_sub := 2\<rparr>) example_inputs [3, 5, 4] True = Inr r
          \<and> outputs_sub r = outputs r \<and> final_state_fw_sub r = final_state_fw r
          \<and> outputs r = [[[2], [2], [2], [2], [2]], [[3], [3], [3], [3], [0]], [[1], [1], [1], [0], [0]]])"
proof -
  have same: "num_layers_sub (example_encoder\<lparr>num_layers_sub := 2\<rparr>)
                = num_layers (example_encoder\<lparr>num_layers_sub := 2\<rparr>)"
    by (simp add: example_encoder_def)
  from sub_equals_main_at_top [OF same forward_top_example] forward_top_example same
  show ?thesis by simp
qed

lemma prepare_example:
  assumes "conv enc = None" and "batch_first enc"
  shows "prepare stable_sort_descending enc example_inputs [3, 5, 4]
           = Inr (example_packed, [5, 4, 3], [1, 2, 0])"
  using assms
  by (simp add: prepare_def stable_sort_354 index_select_def front_end_def
        pack_padded_sequence_def example_inputs_def example_packed_def)

text \<open>
  C2. Let \<open>prepare\<close> have sorted and packed the batch, \<open>seq_len\<close> being the lengths
  it tracks: the sorted input lengths, or their images under the front-end's
  \<open>conv_out_size\<close> when a front-end is configured. Then (1) at a layer where the
  outputs are unpadded (projection, residual or dense residual configured), lengths
  after unpadding that differ from \<open>seq_len\<close> make \<open>forward\<close> raise the assertion
  of line 234; (2) after the last layer, such a difference for the final outputs
  raises the assertion of line 264 and for the sub-task outputs that of line 265;
  (3) whenever \<open>forward\<close> returns, the lengths after unpadding were \<open>seq_len\<close> at
  every layer that unpads and for both outputs at the end.
\<close>

theorem unpadded_lengths_checked:
  fixes enc :: "('a::{zero,plus}, 'h) encoder"
  assumes prep: "prepare srt enc inputs lens = Inr (packed, seq_len, perm)"
    and h0: "h_0 = ih (length inputs) (rnn_type enc) (num_units enc) (num_directions enc)
                     (use_cuda enc) v"
  shows
    "(case (conv enc, conv_out_size enc) of
        (None, _) \<Rightarrow> seq_len = fst (srt lens)
      | (Some c, Some out_size) \<Rightarrow> seq_len = map (\<lambda>x. out_size x 1) (fst (srt lens))
      | (Some c, None) \<Rightarrow> False)
     \<and> (\<forall>k s1.
           k < nat (num_layers enc) \<and> k < length (rnns enc)
         \<and> (residual enc \<or> dense_residual enc \<or> 0 < num_proj enc)
         \<and> run_layers enc seq_len h_0 [0..<k] (initial_state packed) = Inr s1
         \<and> snd (pad_packed_sequence (fst ((rnns enc ! k) (cur_outputs s1) h_0)) (batch_first enc))
             \<noteq> seq_len
         \<longrightarrow> forward srt ih enc inputs lens v = Inl (AssertionError 234))
     \<and> (\<forall>s packed_sub h_sub.
           run_layers enc seq_len h_0 [0..<nat (num_layers enc)] (initial_state packed) = Inr s
         \<and> sub_snapshot s = Some (packed_sub, h_sub)
         \<longrightarrow> (snd (pad_packed_sequence (cur_outputs s) (batch_first enc)) \<noteq> seq_len
               \<longrightarrow> forward srt ih enc inputs lens v = Inl (AssertionError 264))
           \<and> (snd (pad_packed_sequence (cur_outputs s) (batch_first enc)) = seq_len
               \<and> snd (pad_packed_sequence packed_sub (batch_first enc)) \<noteq> seq_len
               \<longrightarrow> forward srt ih enc inputs lens v = Inl (AssertionError 265)))
     \<and> (\<forall>r. forward srt ih enc inputs lens v = Inr r \<longrightarrow>
           (\<exists>s packed_sub h_sub.
              run_layers enc seq_len h_0 [0..<nat (num_layers enc)] (initial_state packed) = Inr s
            \<and> sub_snapshot s = Some (packed_sub, h_sub)
            \<and> snd (pad_packed_sequence (cur_outputs s) (batch_first enc)) = seq_len
            \<and> snd (pad_packed_sequence packed_sub (batch_first enc)) = seq_len
            \<and> (\<forall>k < nat (num_layers enc).
                  \<exists>s1. run_layers enc seq_len h_0 [0..<k] (initial_state packed) = Inr s1
                     \<and> k < length (rnns enc)
                     \<and> (residual enc \<or> dense_residual enc \<or> 0 < num_proj enc \<longrightarrow>
                          snd (pad_packed_sequence (fst ((rnns enc ! k) (cur_outputs s1) h_0))
                                 (batch_first enc)) = seq_len))))"
proof (intro conjI allI impI)
  from prepare_Inr [OF prep] obtain sorted_inputs inputs' where
    "front_end enc sorted_inputs (fst (srt lens)) = Inr (inputs', seq_len)"
    by blast
  from front_end_Inr [OF this]
  show "case (conv enc, conv_out_size enc) of
        (None, _) \<Rightarrow> seq_len = fst (srt lens)
      | (Some c, Some out_size) \<Rightarrow> seq_len = map (\<lambda>x. out_size x 1) (fst (srt lens))
      | (Some c, None) \<Rightarrow> False" .
next
  fix k s1
  assume a: "k < nat (num_layers enc) \<and> k < length (rnns enc)
         \<and> (residual enc \<or> dense_residual enc \<or> 0 < num_proj enc)
         \<and> run_layers enc seq_len h_0 [0..<k] (initial_state packed) = Inr s1
         \<and> snd (pad_packed_sequence (fst ((rnns enc ! k) (cur_outputs s1) h_0)) (batch_first enc))
             \<noteq> seq_len"
  then have step: "layer_step enc seq_len h_0 k s1 = Inl (AssertionError 234)"
    by (intro layer_step_mismatch) simp_all
  from a have split: "[0..<nat (num_layers enc)] = [0..<k] @ k # [Suc k..<nat (num_layers enc)]"
    by (intro upt_split_at) simp
  from a step show "forward srt ih enc inputs lens v = Inl (AssertionError 234)"
    unfolding forward_prepared [OF prep] h0 [symmetric] split run_layers_append
    by simp
next
  fix s packed_sub h_sub
  assume a: "run_layers enc seq_len h_0 [0..<nat (num_layers enc)] (initial_state packed) = Inr s
         \<and> sub_snapshot s = Some (packed_sub, h_sub)"
  {
    assume "snd (pad_packed_sequence (cur_outputs s) (batch_first enc)) \<noteq> seq_len"
    with a show "forward srt ih enc inputs lens v = Inl (AssertionError 264)"
      unfolding forward_prepared [OF prep] h0 [symmetric]
      by (simp add: finish_mismatch(1))
  }
  {
    assume "snd (pad_packed_sequence (cur_outputs s) (batch_first enc)) = seq_len
               \<and> snd (pad_packed_sequence packed_sub (batch_first enc)) \<noteq> seq_len"
    with a show "forward srt ih enc inputs lens v = Inl (AssertionError 265)"
      unfolding forward_prepared [OF prep] h0 [symmetric]
      by (simp add: finish_mismatch(2))
  }
next
  fix r
  assume fw: "forward srt ih enc inputs lens v = Inr r"
  then obtain s where run: "run_layers enc seq_len h_0 [0..<nat (num_layers enc)] (initial_state packed) = Inr s"
    and fin: "finish enc seq_len perm s = Inr r"
    unfolding forward_prepared [OF prep] h0 [symmetric]
    by (auto simp: ebind_eq_Inr)
  from finish_Inr [OF fin] obtain packed_sub h_sub where
    sub: "sub_snapshot s = Some (packed_sub, h_sub)"
    and l1: "snd (pad_packed_sequence (cur_outputs s) (batch_first enc)) = seq_len"
    and l2: "snd (pad_packed_sequence packed_sub (batch_first enc)) = seq_len"
    by blast
  have layers: "\<forall>k < nat (num_layers enc).
                  \<exists>s1. run_layers enc seq_len h_0 [0..<k] (initial_state packed) = Inr s1
                     \<and> k < length (rnns enc)
                     \<and> (residual enc \<or> dense_residual enc \<or> 0 < num_proj enc \<longrightarrow>
                          snd (pad_packed_sequence (fst ((rnns enc ! k) (cur_outputs s1) h_0))
                                 (batch_first enc)) = seq_len)"
  proof (intro allI impI)
    fix k
    assume k: "k < nat (num_layers enc)"
    from run_layers_at [OF run k] obtain s1 s2 where
      r1: "run_layers enc seq_len h_0 [0..<k] (initial_state packed) = Inr s1"
      and st: "layer_step enc seq_len h_0 k s1 = Inr s2"
      by blast
    from layer_step_Inr [OF st] have kl: "k < length (rnns enc)" by simp
    have "residual enc \<or> dense_residual enc \<or> 0 < num_proj enc \<longrightarrow>
            snd (pad_packed_sequence (fst ((rnns enc ! k) (cur_outputs s1) h_0)) (batch_first enc))
              = seq_len"
    proof
      assume br: "residual enc \<or> dense_residual enc \<or> 0 < num_proj enc"
      with layer_step_Inr [OF st]
      have "unpack_project_residual enc seq_len k (fst ((rnns enc ! k) (cur_outputs s1) h_0))
              (res_outputs_list s1) = Inr (cur_outputs s2, res_outputs_list s2)"
        by simp
      from unpack_project_residual_Inr [OF this]
      show "snd (pad_packed_sequence (fst ((rnns enc ! k) (cur_outputs s1) h_0)) (batch_first enc))
              = seq_len" by simp
    qed
    with r1 kl
    show "\<exists>s1. run_layers enc seq_len h_0 [0..<k] (initial_state packed) = Inr s1
             \<and> k < length (rnns enc)
             \<and> (residual enc \<or> dense_residual enc \<or> 0 < num_proj enc \<longrightarrow>
                  snd (pad_packed_sequence (fst ((rnns enc ! k) (cur_outputs s1) h_0))
                         (batch_first enc)) = seq_len)"
      by blast
  qed
  from run sub l1 l2 layers
  show "\<exists>s packed_sub h_sub.
              run_layers enc seq_len h_0 [0..<nat (num_layers enc)] (initial_state packed) = Inr s
            \<and> sub_snapshot s = Some (packed_sub, h_sub)
            \<and> snd (pad_packed_sequence (cur_outputs s) (batch_first enc)) = seq_len
            \<and> snd (pad_packed_sequence packed_sub (batch_first enc)) = seq_len
            \<and> (\<forall>k < nat (num_layers enc).
                  \<exists>s1. run_layers enc seq_len h_0 [0..<k] (initial_state packed) = Inr s1
                     \<and> k < length (rnns enc)
                     \<and> (residual enc \<or> dense_residual enc \<or> 0 < num_proj enc \<longrightarrow>
                          snd (pad_packed_sequence (fst ((rnns enc ! k) (cur_outputs s1) h_0))
                                 (batch_first enc)) = seq_len))"
    by blast
qed

theorem unpadded_lengths_checked_witness:
  "forward stable_sort_descending no_hidden (example_encoder\<lparr>residual := True, rnns := [truncating_cell, truncating_cell]\<rparr>)
     example_inputs [3, 5, 4] True = Inl (AssertionError 234)
   \<and> forward stable_sort_descending no_hidden (example_encoder\<lparr>rnns := [sum_cell 1 1 True 0 False, truncating_cell]\<rparr>)
     example_inputs [3, 5, 4] True = Inl (AssertionError 264)
   \<and> forward stable_sort_descending no_hidden (example_encoder\<lparr>rnns := [truncating_cell, extending_cell]\<rparr>)
     example_inputs [3, 5, 4] True = Inl (AssertionError 265)
   \<and> (\<exists>r s1. forward stable_sort_descending no_hidden (example_encoder\<lparr>residual := True\<rparr>) example_inputs [3, 5, 4] True = Inr r
          \<and> run_layers (example_encoder\<lparr>residual := True\<rparr>) [5, 4, 3] () [0..<1]
              (initial_state example_packed) = Inr s1
          \<and> snd (pad_packed_sequence
                   (fst ((rnns (example_encoder\<lparr>residual := True\<rparr>) ! 1) (cur_outputs s1) ())) True)
              = [5, 4, 3])"
proof -
  let ?e1 = "example_encoder\<lparr>residual := True, rnns := [truncating_cell, truncating_cell]\<rparr>"
  let ?e2 = "example_encoder\<lparr>rnns := [sum_cell 1 1 True 0 False, truncating_cell]\<rparr>"
  let ?e3 = "example_encoder\<lparr>rnns := [truncating_cell, extending_cell]\<rparr>"
  let ?e4 = "example_encoder\<lparr>residual := True\<rparr>"
  let ?s2 = "\<lparr> cur_outputs = PackedSequence [[[2], [2], [2], [2]], [[3], [3], [3]], [[1], [1]]],
               cur_h_n = Some [[[10], [12], [3]]], res_outputs_list = [],
               sub_snapshot = Some (example_packed, [[[10], [12], [3]]]) \<rparr>"
  let ?s3 = "\<lparr> cur_outputs = PackedSequence [[[2], [2], [2], [2], [0]], [[3], [3], [3], [0]], [[1], [1], [0]]],
               cur_h_n = Some [[[8], [9], [2]]], res_outputs_list = [],
               sub_snapshot = Some (PackedSequence [[[2], [2], [2], [2]], [[3], [3], [3]], [[1], [1]]],
                                    [[[10], [12], [3]]]) \<rparr>"
  have p1: "prepare stable_sort_descending ?e1 example_inputs [3, 5, 4] = Inr (example_packed, [5, 4, 3], [1, 2, 0])"
    by (rule prepare_example) (simp_all add: example_encoder_def)
  have p2: "prepare stable_sort_descending ?e2 example_inputs [3, 5, 4] = Inr (example_packed, [5, 4, 3], [1, 2, 0])"
    by (rule prepare_example) (simp_all add: example_encoder_def)
  have p3: "prepare stable_sort_descending ?e3 example_inputs [3, 5, 4] = Inr (example_packed, [5, 4, 3], [1, 2, 0])"
    by (rule prepare_example) (simp_all add: example_encoder_def)
  have p4: "prepare stable_sort_descending ?e4 example_inputs [3, 5, 4] = Inr (example_packed, [5, 4, 3], [1, 2, 0])"
    by (rule prepare_example) (simp_all add: example_encoder_def)
  note t1 = unpadded_lengths_checked [where srt = stable_sort_descending and ih = no_hidden and v = True, OF p1 refl]
  note t2 = unpadded_lengths_checked [where srt = stable_sort_descending and ih = no_hidden and v = True, OF p2 refl]
  note t3 = unpadded_lengths_checked [where srt = stable_sort_descending and ih = no_hidden and v = True, OF p3 refl]
  note t4 = unpadded_lengths_checked [where srt = stable_sort_descending and ih = no_hidden and v = True, OF p4 refl]
  have c1: "forward stable_sort_descending no_hidden ?e1 example_inputs [3, 5, 4] True = Inl (AssertionError 234)"
    by (rule t1 [THEN conjunct2, THEN conjunct1, rule_format, of 0 "initial_state example_packed"])
       (simp add: example_encoder_def initial_state_def example_packed_def truncating_cell_def
          pad_lengths)
  have run2: "run_layers ?e2 [5, 4, 3]
                (no_hidden (length example_inputs) (rnn_type ?e2) (num_units ?e2)
                   (num_directions ?e2) (use_cuda ?e2) True)
                [0..<nat (num_layers ?e2)] (initial_state example_packed) = Inr ?s2"
    by (simp add: example_encoder_def forward_eval truncating_cell_def example_packed_def)
  have sub2: "sub_snapshot ?s2 = Some (example_packed, [[[10], [12], [3]]])"
    by simp
  from t2 [THEN conjunct2, THEN conjunct2, THEN conjunct1, rule_format, OF conjI [OF run2 sub2]]
  have c2: "forward stable_sort_descending no_hidden ?e2 example_inputs [3, 5, 4] True = Inl (AssertionError 264)"
    by (simp add: pad_lengths)
  have run3: "run_layers ?e3 [5, 4, 3]
                (no_hidden (length example_inputs) (rnn_type ?e3) (num_units ?e3)
                   (num_directions ?e3) (use_cuda ?e3) True)
                [0..<nat (num_layers ?e3)] (initial_state example_packed) = Inr ?s3"
    by (simp add: example_encoder_def forward_eval truncating_cell_def extending_cell_def
          example_packed_def)
  have sub3: "sub_snapshot ?s3
       = Some (PackedSequence [[[2], [2], [2], [2]], [[3], [3], [3]], [[1], [1]]], [[[10], [12], [3]]])"
    by simp
  from t3 [THEN conjunct2, THEN conjunct2, THEN conjunct1, rule_format, OF conjI [OF run3 sub3]]
  have c3: "forward stable_sort_descending no_hidden ?e3 example_inputs [3, 5, 4] True = Inl (AssertionError 265)"
    by (simp add: pad_lengths example_packed_def)
  have "\<exists>r. forward stable_sort_descending no_hidden ?e4 example_inputs [3, 5, 4] True = Inr r"
    by (simp add: forward_eval stable_sort_354 example_encoder_def example_inputs_def)
  then obtain r where fw4: "forward stable_sort_descending no_hidden ?e4 example_inputs [3, 5, 4] True = Inr r" ..
  from t4 [THEN conjunct2, THEN conjunct2, THEN conjunct2, rule_format, OF fw4]
  have layers: "\<forall>k < nat (num_layers ?e4).
                  \<exists>s1. run_layers ?e4 [5, 4, 3]
                         (no_hidden (length example_inputs) (rnn_type ?e4) (num_units ?e4)
                            (num_directions ?e4) (use_cuda ?e4) True)
                         [0..<k] (initial_state example_packed) = Inr s1
                     \<and> k < length (rnns ?e4)
                     \<and> (residual ?e4 \<or> dense_residual ?e4 \<or> 0 < num_proj ?e4 \<longrightarrow>
                          snd (pad_packed_sequence
                                 (fst ((rnns ?e4 ! k) (cur_outputs s1)
                                    (no_hidden (length example_inputs) (rnn_type ?e4) (num_units ?e4)
                                       (num_directions ?e4) (use_cuda ?e4) True)))
                                 (batch_first ?e4)) = [5, 4, 3])"
    by blast
  have "1 < nat (num_layers ?e4)" by (simp add: example_encoder_def)
  with layers have "\<exists>s1. run_layers ?e4 [5, 4, 3] () [0..<1] (initial_state example_packed) = Inr s1
                \<and> snd (pad_packed_sequence (fst ((rnns ?e4 ! 1) (cur_outputs s1) ())) True)
                    = [5, 4, 3]"
    by (auto simp: example_encoder_def no_hidden_def dest!: spec [where x = 1])
  with fw4 c1 c2 c3 show ?thesis by blast
qed

text \<open>
  C3. In a pass of the loop with residual or dense-residual mode on, the (possibly
  projected) output of the layer is summed with every retained output in turn
  (element-wise, from the left, when the sizes agree); the sum is what is packed
  and passed on. Afterwards the retained list is exactly the sum under residual
  mode, and the old list with the sum appended under dense-residual mode. The loop
  starts with nothing retained, so at the first layer the sum is the layer's own
  output and the inputs are no summand.
\<close>

theorem residual_accumulation:
  fixes enc :: "('a::{zero,plus}, 'h) encoder"
  shows
    "(\<forall>i s s'.
        layer_step enc lens hx i s = Inr s' \<and> (residual enc \<or> dense_residual enc) \<longrightarrow>
        (\<exists>projected summed.
           projection_layer enc i
             (fst (pad_packed_sequence (fst ((rnns enc ! i) (cur_outputs s) hx)) (batch_first enc)))
             = Inr projected
         \<and> sum_lower projected (res_outputs_list s) = Inr summed
         \<and> (\<forall>B T F. has_size projected B T F
                     \<and> (\<forall>t \<in> set (res_outputs_list s). has_size t B T F) \<longrightarrow>
               summed = foldl (\<lambda>a b. map2 (map2 (map2 (+))) a b) projected (res_outputs_list s))
         \<and> pack_padded_sequence summed lens (batch_first enc) = Inr (cur_outputs s')
         \<and> res_outputs_list s' = (if residual enc then [summed] else res_outputs_list s @ [summed])))
     \<and> (\<forall>packed s'.
          layer_step enc lens hx 0 (initial_state packed) = Inr s'
          \<and> (residual enc \<or> dense_residual enc) \<longrightarrow>
          (\<exists>projected.
             projection_layer enc 0
               (fst (pad_packed_sequence (fst ((rnns enc ! 0) packed hx)) (batch_first enc)))
               = Inr projected
           \<and> pack_padded_sequence projected lens (batch_first enc) = Inr (cur_outputs s')
           \<and> res_outputs_list s' = [projected]))"
proof -
  have main: "\<exists>projected summed.
           projection_layer enc i
             (fst (pad_packed_sequence (fst ((rnns enc ! i) (cur_outputs s) hx)) (batch_first enc)))
             = Inr projected
         \<and> sum_lower projected (res_outputs_list s) = Inr summed
         \<and> (\<forall>B T F. has_size projected B T F
                     \<and> (\<forall>t \<in> set (res_outputs_list s). has_size t B T F) \<longrightarrow>
               summed = foldl (\<lambda>a b. map2 (map2 (map2 (+))) a b) projected (res_outputs_list s))
         \<and> pack_padded_sequence summed lens (batch_first enc) = Inr (cur_outputs s')
         \<and> res_outputs_list s' = (if residual enc then [summed] else res_outputs_list s @ [summed])"
    if step: "layer_step enc lens hx i s = Inr s'" and mode: "residual enc \<or> dense_residual enc"
    for i s s'
  proof -
    from layer_step_Inr [OF step] mode
    have "unpack_project_residual enc lens i (fst ((rnns enc ! i) (cur_outputs s) hx))
            (res_outputs_list s) = Inr (cur_outputs s', res_outputs_list s')"
      by auto
    from unpack_project_residual_Inr [OF this] obtain projected summed where
      proj: "projection_layer enc i
               (fst (pad_packed_sequence (fst ((rnns enc ! i) (cur_outputs s) hx)) (batch_first enc)))
               = Inr projected"
      and res: "residual_connection enc projected (res_outputs_list s) = Inr (summed, res_outputs_list s')"
      and pack: "pack_padded_sequence summed lens (batch_first enc) = Inr (cur_outputs s')"
      by blast
    from residual_connection_Inr [OF res] mode
    have sum: "sum_lower projected (res_outputs_list s) = Inr summed"
      and keep: "res_outputs_list s' = (if residual enc then [summed] else res_outputs_list s @ [summed])"
      by auto
    have "summed = foldl (\<lambda>a b. map2 (map2 (map2 (+))) a b) projected (res_outputs_list s)"
      if "has_size projected B T F" "\<forall>t \<in> set (res_outputs_list s). has_size t B T F" for B T F
      using sum_lower_same_size [OF that] sum by simp
    with proj sum pack keep show ?thesis by blast
  qed
  have first: "\<exists>projected.
             projection_layer enc 0
               (fst (pad_packed_sequence (fst ((rnns enc ! 0) packed hx)) (batch_first enc)))
               = Inr projected
           \<and> pack_padded_sequence projected lens (batch_first enc) = Inr (cur_outputs s')
           \<and> res_outputs_list s' = [projected]"
    if step: "layer_step enc lens hx 0 (initial_state packed) = Inr s'"
      and mode: "residual enc \<or> dense_residual enc"
    for packed s'
    using main [OF step mode] by (auto simp: initial_state_def)
  from main first show ?thesis by blast
qed

theorem residual_accumulation_witness:
  "\<exists>s1 s2.
     layer_step (example_encoder\<lparr>dense_residual := True\<rparr>) [5, 4, 3] () 0
       (initial_state example_packed) = Inr s1
   \<and> res_outputs_list s1 = [example_padded]
   \<and> layer_step (example_encoder\<lparr>dense_residual := True\<rparr>) [5, 4, 3] () 1 s1 = Inr s2
   \<and> res_outputs_list s2 =
       [example_padded,
        [[[4], [4], [4], [4], [4]], [[6], [6], [6], [6], [0]], [[2], [2], [2], [0], [0]]]]
   \<and> cur_outputs s2 =
       PackedSequence [[[4], [4], [4], [4], [4]], [[6], [6], [6], [6]], [[2], [2], [2]]]"
proof -
  let ?e = "example_encoder\<lparr>dense_residual := True\<rparr>"
  let ?s1 = "\<lparr> cur_outputs = example_packed, cur_h_n = Some [[[10], [12], [3]]],
               res_outputs_list = [example_padded],
               sub_snapshot = Some (example_packed, [[[10], [12], [3]]]) \<rparr>"
  have mode: "residual ?e \<or> dense_residual ?e" by simp
  have step0: "layer_step ?e [5, 4, 3] () 0 (initial_state example_packed) = Inr ?s1"
    by (simp add: example_encoder_def forward_eval example_packed_def example_padded_def)
  have "\<exists>s2. layer_step ?e [5, 4, 3] () 1 ?s1 = Inr s2"
    by (simp add: example_encoder_def forward_eval example_packed_def example_padded_def)
  then obtain s2 where step1: "layer_step ?e [5, 4, 3] () 1 ?s1 = Inr s2" ..
  from residual_accumulation [where enc = ?e and lens = "[5, 4, 3]" and hx = "()",
         THEN conjunct1, rule_format, OF conjI [OF step1 mode]]
  obtain projected summed where
    proj: "projection_layer ?e 1
             (fst (pad_packed_sequence (fst ((rnns ?e ! 1) (cur_outputs ?s1) ())) (batch_first ?e)))
             = Inr projected"
    and elementwise: "\<forall>B T F. has_size projected B T F
                     \<and> (\<forall>t \<in> set (res_outputs_list ?s1). has_size t B T F) \<longrightarrow>
               summed = foldl (\<lambda>a b. map2 (map2 (map2 (+))) a b) projected (res_outputs_list ?s1)"
    and pack: "pack_padded_sequence summed [5, 4, 3] (batch_first ?e) = Inr (cur_outputs s2)"
    and keep: "res_outputs_list s2 = (if residual ?e then [summed] else res_outputs_list ?s1 @ [summed])"
    by blast
  from proj have projected: "projected = example_padded"
    by (simp add: example_encoder_def forward_eval example_packed_def example_padded_def)
  have "has_size example_padded 3 5 1"
    by (simp add: has_size_def example_padded_def)
  with elementwise [rule_format, of 3 5 1] projected
  have summed: "summed = [[[4], [4], [4], [4], [4]], [[6], [6], [6], [6], [0]], [[2], [2], [2], [0], [0]]]"
    by (simp add: example_padded_def)
  from keep summed have r2: "res_outputs_list s2 =
       [example_padded,
        [[[4], [4], [4], [4], [4]], [[6], [6], [6], [6], [0]], [[2], [2], [2], [0], [0]]]]"
    by (simp add: example_encoder_def)
  from pack summed have c2: "cur_outputs s2 =
       PackedSequence [[[4], [4], [4], [4], [4]], [[6], [6], [6], [6]], [[2], [2], [2]]]"
    by (simp add: example_encoder_def pack_padded_sequence_def)
  from step0 step1 r2 c2 show ?thesis by (intro exI [of _ ?s1] exI [of _ s2]) simp
qed

text \<open>
  C6. With a projection configured, a pass of the loop that succeeds has applied the
  layer's projection to the unpadded output of the cell at every layer but the last
  (index \<open>num_layers - 1\<close>), where the unpadded output is passed on as it is.
\<close>

theorem projection_skipped_on_last_layer:
  fixes enc :: "('a::{zero,plus}, 'h) encoder"
  assumes "0 < num_proj enc"
    and "layer_step enc lens hx i s = Inr s'"
  shows
    "\<exists>summed.
       residual_connection enc
         (if int i = num_layers enc - 1
          then fst (pad_packed_sequence (fst ((rnns enc ! i) (cur_outputs s) hx)) (batch_first enc))
          else (projections enc ! i)
                 (fst (pad_packed_sequence (fst ((rnns enc ! i) (cur_outputs s) hx)) (batch_first enc))))
         (res_outputs_list s) = Inr (summed, res_outputs_list s')
     \<and> pack_padded_sequence summed lens (batch_first enc) = Inr (cur_outputs s')
     \<and> (\<not> residual enc \<and> \<not> dense_residual enc \<longrightarrow>
          summed =
            (if int i = num_layers enc - 1
             then fst (pad_packed_sequence (fst ((rnns enc ! i) (cur_outputs s) hx)) (batch_first enc))
             else (projections enc ! i)
                    (fst (pad_packed_sequence (fst ((rnns enc ! i) (cur_outputs s) hx))
                            (batch_first enc)))))
     \<and> (int i \<noteq> num_layers enc - 1 \<longrightarrow> i < length (projections enc))"
proof -
  from layer_step_Inr [OF assms(2)] assms(1)
  have "unpack_project_residual enc lens i (fst ((rnns enc ! i) (cur_outputs s) hx))
          (res_outputs_list s) = Inr (cur_outputs s', res_outputs_list s')"
    by auto
  from unpack_project_residual_Inr [OF this] obtain projected summed where
    proj: "projection_layer enc i
             (fst (pad_packed_sequence (fst ((rnns enc ! i) (cur_outputs s) hx)) (batch_first enc)))
             = Inr projected"
    and res: "residual_connection enc projected (res_outputs_list s) = Inr (summed, res_outputs_list s')"
    and pack: "pack_padded_sequence summed lens (batch_first enc) = Inr (cur_outputs s')"
    by blast
  from projection_layer_Inr [OF proj] assms(1)
  have p: "projected =
            (if int i = num_layers enc - 1
             then fst (pad_packed_sequence (fst ((rnns enc ! i) (cur_outputs s) hx)) (batch_first enc))
             else (projections enc ! i)
                    (fst (pad_packed_sequence (fst ((rnns enc ! i) (cur_outputs s) hx))
                            (batch_first enc))))"
    and l: "int i \<noteq> num_layers enc - 1 \<longrightarrow> i < length (projections enc)"
    by (auto split: if_splits)
  from residual_connection_Inr [OF res]
  have "\<not> residual enc \<and> \<not> dense_residual enc \<longrightarrow> summed = projected" by auto
  with res pack l show ?thesis unfolding p by blast
qed

theorem projection_skipped_on_last_layer_witness:
  "0 < num_proj projection_encoder
   \<and> (\<exists>s1 s2.
        layer_step projection_encoder [5, 4, 3] () 0 (initial_state example_packed) = Inr s1
      \<and> cur_outputs s1 =
          PackedSequence [[[2, 2], [2, 2], [2, 2], [2, 2], [2, 2]],
                          [[3, 3], [3, 3], [3, 3], [3, 3]],
                          [[1, 1], [1, 1], [1, 1]]]
      \<and> layer_step projection_encoder [5, 4, 3] () 1 s1 = Inr s2
      \<and> cur_outputs s2 =
          PackedSequence [[[4], [4], [4], [4], [4]], [[6], [6], [6], [6]], [[2], [2], [2]]])"
proof -
  let ?e = projection_encoder
  have proj: "0 < num_proj ?e" by (simp add: projection_encoder_def)
  have plain: "\<not> residual ?e \<and> \<not> dense_residual ?e"
    by (simp add: projection_encoder_def example_encoder_def)
  have "\<exists>s1. layer_step ?e [5, 4, 3] () 0 (initial_state example_packed) = Inr s1"
    by (simp add: projection_encoder_def example_encoder_def forward_eval example_packed_def)
  then obtain s1 where step0: "layer_step ?e [5, 4, 3] () 0 (initial_state example_packed) = Inr s1" ..
  from projection_skipped_on_last_layer [OF proj step0] plain
  have "pack_padded_sequence
          ((projections ?e ! 0)
             (fst (pad_packed_sequence (fst ((rnns ?e ! 0) (cur_outputs (initial_state example_packed)) ()))
                     (batch_first ?e))))
          [5, 4, 3] (batch_first ?e) = Inr (cur_outputs s1)"
    by (auto simp: projection_encoder_def example_encoder_def)
  then have c1: "cur_outputs s1 =
          PackedSequence [[[2, 2], [2, 2], [2, 2], [2, 2], [2, 2]],
                          [[3, 3], [3, 3], [3, 3], [3, 3]],
                          [[1, 1], [1, 1], [1, 1]]]"
    by (simp add: projection_encoder_def example_encoder_def forward_eval example_packed_def
          replicate_2)
  have "\<exists>s2. layer_step ?e [5, 4, 3] () 1 s1 = Inr s2"
    using c1
    by (simp add: layer_step_def projection_encoder_def example_encoder_def
          unpack_project_residual_def projection_layer_def residual_connection_def
          pad_packed_sequence_def max_len_def feature_size_def pack_padded_sequence_def
          sum_cell_def)
  then obtain s2 where step1: "layer_step ?e [5, 4, 3] () 1 s1 = Inr s2" ..
  from projection_skipped_on_last_layer [OF proj step1] plain
  have "pack_padded_sequence
          (fst (pad_packed_sequence (fst ((rnns ?e ! 1) (cur_outputs s1) ())) (batch_first ?e)))
          [5, 4, 3] (batch_first ?e) = Inr (cur_outputs s2)"
    by (auto simp: projection_encoder_def example_encoder_def)
  with c1 have c2: "cur_outputs s2 =
          PackedSequence [[[4], [4], [4], [4], [4]], [[6], [6], [6], [6]], [[2], [2], [2]]]"
    by (simp add: projection_encoder_def example_encoder_def forward_eval)
  from proj step0 c1 step1 c2 show ?thesis by blast
qed

text \<open>
  C7. The merge of lines 268-272 slices both outputs at \<open>num_units\<close>. The final
  output is never projected, so its two halves are the two directions. The sub-task
  output is taken after the projection of its layer: with two units and a projection
  of width 6 its halves have 2 and 4 features, and the sum at line 271 raises. The
  same encoder without the projection returns both outputs with \<open>num_units\<close>
  features.
\<close>

theorem merge_fails_on_projected_sub_output:
  "init example_nn merge_args = Inr merge_encoder
   \<and> forward stable_sort_descending no_hidden merge_encoder example_inputs [3, 5, 4] True = Inl RuntimeError
   \<and> forward stable_sort_descending no_hidden (bidirectional_encoder\<lparr>merge_bidirectional := True\<rparr>)
        example_inputs [3, 5, 4] True
     = Inr \<lparr> outputs = [[[16, 16], [16, 16], [16, 16], [16, 16], [16, 16]],
                        [[24, 24], [24, 24], [24, 24], [24, 24], [0, 0]],
                        [[8, 8], [8, 8], [8, 8], [0, 0], [0, 0]]],
             final_state_fw = [[[40, 40], [48, 48], [12, 12]]],
             outputs_sub = [[[4, 4], [4, 4], [4, 4], [4, 4], [4, 4]],
                            [[6, 6], [6, 6], [6, 6], [6, 6], [0, 0]],
                            [[2, 2], [2, 2], [2, 2], [0, 0], [0, 0]]],
             final_state_fw_sub = [[[10, 10], [12, 12], [3, 3]]],
             perm_indices = [1, 2, 0] \<rparr>"
proof (intro conjI)
  show "init example_nn merge_args = Inr merge_encoder"
    by (simp add: init_def merge_args_def example_args_def example_nn_def merge_encoder_def upt_rec)
  show "forward stable_sort_descending no_hidden merge_encoder example_inputs [3, 5, 4] True = Inl RuntimeError"
    by (simp add: forward_eval stable_sort_354 merge_encoder_def example_inputs_def
          eval_nat_numeral)
  show "forward stable_sort_descending no_hidden (bidirectional_encoder\<lparr>merge_bidirectional := True\<rparr>)
        example_inputs [3, 5, 4] True
     = Inr \<lparr> outputs = [[[16, 16], [16, 16], [16, 16], [16, 16], [16, 16]],
                        [[24, 24], [24, 24], [24, 24], [24, 24], [0, 0]],
                        [[8, 8], [8, 8], [8, 8], [0, 0], [0, 0]]],
             final_state_fw = [[[40, 40], [48, 48], [12, 12]]],
             outputs_sub = [[[4, 4], [4, 4], [4, 4], [4, 4], [4, 4]],
                            [[6, 6], [6, 6], [6, 6], [6, 6], [0, 0]],
                            [[2, 2], [2, 2], [2, 2], [0, 0], [0, 0]]],
             final_state_fw_sub = [[[10, 10], [12, 12], [3, 3]]],
             perm_indices = [1, 2, 0] \<rparr>"
    by (simp add: forward_eval stable_sort_354 bidirectional_encoder_def example_inputs_def
          eval_nat_numeral)
qed

text \<open>
  C8. Let the encoder's \<open>num_directions\<close> be 2 exactly when it is bidirectional (as
  \<open>init\<close> sets it), and let the library keep its promises: the sort is a descending
  sort of the lengths, and the cells keep the contract of a one-layer cell. Whenever \<open>forward\<close> returns, \<open>final_state_fw\<close> and
  \<open>final_state_fw_sub\<close> are cut from the \<open>h_n\<close> of the last layer and of the
  sub-task layer: the second-to-last slice when bidirectional, the last slice
  otherwise, each kept under a leading dimension of 1; both have size
  \<open>[1, B, num_units]\<close>, \<open>B\<close> being the number of lengths given.
\<close>

theorem final_state_extraction:
  fixes enc :: "('a::{zero,plus}, 'h) encoder"
  assumes fw: "forward srt ih enc inputs lens v = Inr r"
    and sort: "descending_sort srt lens"
    and dirs: "num_directions enc = (if bidirectional enc then 2 else 1)"
    and contract:
      "\<forall>cell \<in> set (rnns enc).
         cell_contract (nat (num_directions enc)) (nat (num_units enc))
           (ih (length inputs) (rnn_type enc) (num_units enc) (num_directions enc) (use_cuda enc) v)
           cell"
  shows
    "\<exists>packed seq_len perm s packed_sub h_n h_n_sub.
       prepare srt enc inputs lens = Inr (packed, seq_len, perm)
     \<and> run_layers enc seq_len
          (ih (length inputs) (rnn_type enc) (num_units enc) (num_directions enc) (use_cuda enc) v)
          [0..<nat (num_layers enc)] (initial_state packed) = Inr s
     \<and> cur_h_n s = Some h_n
     \<and> sub_snapshot s = Some (packed_sub, h_n_sub)
     \<and> final_state_fw r = (if bidirectional enc then [h_n ! (length h_n - 2)] else [last h_n])
     \<and> final_state_fw_sub r
         = (if bidirectional enc then [h_n_sub ! (length h_n_sub - 2)] else [last h_n_sub])
     \<and> has_size (final_state_fw r) 1 (length lens) (nat (num_units enc))
     \<and> has_size (final_state_fw_sub r) 1 (length lens) (nat (num_units enc))"
proof -
  let ?hx = "ih (length inputs) (rnn_type enc) (num_units enc) (num_directions enc) (use_cuda enc) v"
  let ?nd = "nat (num_directions enc)"
  let ?u = "nat (num_units enc)"
  from forward_Inr [OF fw] obtain packed seq_len perm s where
    prep: "prepare srt enc inputs lens = Inr (packed, seq_len, perm)"
    and run: "run_layers enc seq_len ?hx [0..<nat (num_layers enc)] (initial_state packed) = Inr s"
    and fin: "finish enc seq_len perm s = Inr r"
    by blast
  from finish_Inr [OF fin] obtain packed_sub h_sub h_n where
    sub: "sub_snapshot s = Some (packed_sub, h_sub)" and hn: "cur_h_n s = Some h_n"
    and l1: "snd (pad_packed_sequence (cur_outputs s) (batch_first enc)) = seq_len"
    and l2: "snd (pad_packed_sequence packed_sub (batch_first enc)) = seq_len"
    and f1: "pick_final_state (num_directions enc) h_n = Inr (final_state_fw r)"
    and f2: "pick_final_state (num_directions enc) h_sub = Inr (final_state_fw_sub r)"
    by blast
  have "(\<forall>h. cur_h_n s = Some h \<longrightarrow> has_size h ?nd (length (seqs (cur_outputs s))) ?u)
      \<and> (\<forall>ps hs. sub_snapshot s = Some (ps, hs) \<longrightarrow> has_size hs ?nd (length (seqs ps)) ?u)"
    by (rule run_layers_hidden_size [OF contract run]) (simp_all add: initial_state_def)
  with sub hn have s1: "has_size h_n ?nd (length (seqs (cur_outputs s))) ?u"
    and s2: "has_size h_sub ?nd (length (seqs packed_sub)) ?u"
    by auto
  have b: "length seq_len = length lens" by (rule prepare_length [OF prep sort])
  from l1 b have b1: "length (seqs (cur_outputs s)) = length lens"
    by (auto simp: pad_lengths dest: arg_cong [where f = length])
  from l2 b have b2: "length (seqs packed_sub) = length lens"
    by (auto simp: pad_lengths dest: arg_cong [where f = length])
  have ext: "final_state_fw r = (if bidirectional enc then [h_n ! (length h_n - 2)] else [last h_n])
     \<and> final_state_fw_sub r
         = (if bidirectional enc then [h_sub ! (length h_sub - 2)] else [last h_sub])
     \<and> has_size (final_state_fw r) 1 (length lens) ?u
     \<and> has_size (final_state_fw_sub r) 1 (length lens) ?u"
  proof (cases "bidirectional enc")
    case True
    with dirs have d: "num_directions enc = 2" by simp
    from s1 s2 b1 b2 d have h1: "has_size h_n 2 (length lens) ?u"
      and h2: "has_size h_sub 2 (length lens) ?u" by simp_all
    from pick_final_state_two [OF h1] pick_final_state_two [OF h2] f1 f2 d True
    show ?thesis by simp
  next
    case False
    with dirs have d: "num_directions enc = 1" by simp
    from s1 s2 b1 b2 d have h1: "has_size h_n 1 (length lens) ?u"
      and h2: "has_size h_sub 1 (length lens) ?u" by simp_all
    from pick_final_state_one [OF h1] pick_final_state_one [OF h2] f1 f2 d False
    show ?thesis by simp
  qed
  with prep run hn sub show ?thesis by blast
qed

theorem final_state_extraction_witness:
  "(\<exists>r. forward stable_sort_descending no_hidden example_encoder example_inputs [3, 5, 4] True = Inr r
        \<and> final_state_fw r = [[[10], [12], [3]]]
        \<and> has_size (final_state_fw r) 1 3 1
        \<and> has_size (final_state_fw_sub r) 1 3 1)
   \<and> (\<exists>r. forward stable_sort_descending no_hidden bidirectional_encoder example_inputs [3, 5, 4] True = Inr r
        \<and> final_state_fw r = [[[40, 40], [48, 48], [12, 12]]]
        \<and> has_size (final_state_fw r) 1 3 2
        \<and> has_size (final_state_fw_sub r) 1 3 2)"
proof -
  have d1: "num_directions example_encoder = (if bidirectional example_encoder then 2 else 1)"
    by (simp add: example_encoder_def)
  have c1: "\<forall>cell \<in> set (rnns example_encoder).
         cell_contract (nat (num_directions example_encoder)) (nat (num_units example_encoder))
           (no_hidden (length example_inputs) (rnn_type example_encoder) (num_units example_encoder)
              (num_directions example_encoder) (use_cuda example_encoder) True)
           cell"
    using sum_cell_contract [where bidir = False and hidden = 1]
    by (simp add: example_encoder_def)
  have d2: "num_directions bidirectional_encoder
              = (if bidirectional bidirectional_encoder then 2 else 1)"
    by (simp add: bidirectional_encoder_def)
  have c2: "\<forall>cell \<in> set (rnns bidirectional_encoder).
         cell_contract (nat (num_directions bidirectional_encoder))
           (nat (num_units bidirectional_encoder))
           (no_hidden (length example_inputs) (rnn_type bidirectional_encoder)
              (num_units bidirectional_encoder) (num_directions bidirectional_encoder)
              (use_cuda bidirectional_encoder) True)
           cell"
    using sum_cell_contract [where bidir = True and hidden = 2]
    by (simp add: bidirectional_encoder_def)
  from final_state_extraction [OF forward_example stable_sort_contract d1 c1]
  have s1: "has_size (final_state_fw_sub
                (\<lparr> outputs = example_padded, final_state_fw = [[[10], [12], [3]]],
                   outputs_sub = example_padded, final_state_fw_sub = [[[10], [12], [3]]],
                   perm_indices = [1, 2, 0] \<rparr> :: int result)) 1 3 1
          \<and> has_size (final_state_fw
                (\<lparr> outputs = example_padded, final_state_fw = [[[10], [12], [3]]],
                   outputs_sub = example_padded, final_state_fw_sub = [[[10], [12], [3]]],
                   perm_indices = [1, 2, 0] \<rparr> :: int result)) 1 3 1"
    by (auto simp: example_encoder_def numeral_3_eq_3)
  from final_state_extraction [OF forward_bidirectional_example stable_sort_contract d2 c2]
  have s2: "has_size [[[40, 40], [48, 48], [12, 12 :: int]]] 1 3 2
          \<and> has_size [[[10, 10], [12, 12], [3, 3 :: int]]] 1 3 2"
    by (auto simp: bidirectional_encoder_def numeral_3_eq_3)
  from s1 s2 forward_example forward_bidirectional_example show ?thesis by simp
qed

text \<open>
  C9. Three sequences of lengths 5, 3 and 4, no front-end, a single direction, two
  layers, the sub-task at the first layer, the sort a descending sort. Whatever
  \<open>forward\<close> returns has the permutation \<open>[0, 2, 1]\<close>, and outputs and sub-task
  outputs of time dimension 5: every one of the 3 batch rows holds 5 frames when
  batch-major, and there are 5 frames of 3 batch entries each when time-major. And \<open>forward\<close> does
  return when nothing makes it unpad between the layers (no projection, no residual),
  the two cells keep the contract of a cell of the library and the inputs have size
  \<open>[3, T, F]\<close> with \<open>T\<close> at least 5.
\<close>

theorem scenario_534:
  fixes enc :: "('a::{zero,plus}, 'h) encoder"
  assumes no_conv: "conv enc = None"
    and single: "\<not> bidirectional enc"
    and two: "num_layers enc = 2"
    and sub_first: "num_layers_sub enc = 1"
    and sort: "descending_sort srt [5, 3, 4]"
  shows
    "(\<forall>r. forward srt ih enc inputs [5, 3, 4] v = Inr r \<longrightarrow>
        time_size (batch_first enc) (outputs r) = 5
      \<and> time_size (batch_first enc) (outputs_sub r) = 5
      \<and> (if batch_first enc
          then leading_sizes (outputs r) 3 5 \<and> leading_sizes (outputs_sub r) 3 5
          else leading_sizes (outputs r) 5 3 \<and> leading_sizes (outputs_sub r) 5 3)
      \<and> perm_indices r = [0, 2, 1])
     \<and> (num_directions enc = 1 \<and> \<not> residual enc \<and> \<not> dense_residual enc \<and> num_proj enc \<le> 0
        \<and> length (rnns enc) = 2
        \<and> (\<forall>cell \<in> set (rnns enc).
              cell_contract 1 (nat (num_units enc))
                (ih (length inputs) (rnn_type enc) (num_units enc) (num_directions enc)
                   (use_cuda enc) v)
                cell)
        \<and> (\<exists>T F. 5 \<le> T \<and> has_size inputs 3 T F)
        \<longrightarrow> (\<exists>r. forward srt ih enc inputs [5, 3, 4] v = Inr r))"
proof -
  have returned: "time_size (batch_first enc) (outputs r) = 5
      \<and> time_size (batch_first enc) (outputs_sub r) = 5
      \<and> (if batch_first enc
          then leading_sizes (outputs r) 3 5 \<and> leading_sizes (outputs_sub r) 3 5
          else leading_sizes (outputs r) 5 3 \<and> leading_sizes (outputs_sub r) 5 3)
      \<and> perm_indices r = [0, 2, 1]"
    if fw: "forward srt ih enc inputs [5, 3, 4] v = Inr r" for r
  proof -
  from forward_Inr [OF fw] obtain packed seq_len perm s where
    prep: "prepare srt enc inputs [5, 3, 4] = Inr (packed, seq_len, perm)"
    and fin: "finish enc seq_len perm s = Inr r"
    by blast
  from prepare_Inr [OF prep] obtain sorted_inputs inputs' where
    perm: "perm = snd (srt [5, 3, 4])"
    and fe: "front_end enc sorted_inputs (fst (srt [5, 3, 4])) = Inr (inputs', seq_len)"
    by blast
  from front_end_Inr [OF fe] no_conv have seq_len: "seq_len = [5, 4, 3]"
    by (simp add: descending_sort_534 [OF sort])
  from finish_Inr [OF fin] single obtain packed_sub where
    l1: "snd (pad_packed_sequence (cur_outputs s) (batch_first enc)) = seq_len"
    and l2: "snd (pad_packed_sequence packed_sub (batch_first enc)) = seq_len"
    and p: "perm_indices r = perm"
    and o1: "outputs r = fst (pad_packed_sequence (cur_outputs s) (batch_first enc))"
    and o2: "outputs_sub r = fst (pad_packed_sequence packed_sub (batch_first enc))"
    by auto
  from l1 l2 seq_len
  have m1: "snd (pad_packed_sequence (cur_outputs s) (batch_first enc)) = [5, 4, 3]"
    and m2: "snd (pad_packed_sequence packed_sub (batch_first enc)) = [5, 4, 3]"
    by simp_all
  have "time_size (batch_first enc) (outputs r) = 5"
    and "time_size (batch_first enc) (outputs_sub r) = 5"
    unfolding o1 o2 by (rule pad_sizes_543(1) [OF m1], rule pad_sizes_543(1) [OF m2])
  moreover have "if batch_first enc
          then leading_sizes (outputs r) 3 5 \<and> leading_sizes (outputs_sub r) 3 5
          else leading_sizes (outputs r) 5 3 \<and> leading_sizes (outputs_sub r) 5 3"
    using pad_sizes_543(2) [OF m1] pad_sizes_543(2) [OF m2]
    unfolding o1 o2 by (simp split: if_splits)
  moreover from p perm have "perm_indices r = [0, 2, 1]"
    by (simp add: descending_sort_534 [OF sort])
  ultimately show ?thesis by simp
  qed
  let ?hx = "ih (length inputs) (rnn_type enc) (num_units enc) (num_directions enc) (use_cuda enc) v"
  have returns: "\<exists>r. forward srt ih enc inputs [5, 3, 4] v = Inr r"
    if a: "num_directions enc = 1 \<and> \<not> residual enc \<and> \<not> dense_residual enc \<and> num_proj enc \<le> 0
        \<and> length (rnns enc) = 2
        \<and> (\<forall>cell \<in> set (rnns enc). cell_contract 1 (nat (num_units enc)) ?hx cell)
        \<and> (\<exists>T F. 5 \<le> T \<and> has_size inputs 3 T F)"
  proof -
  from a obtain T F where T: "5 \<le> T" and size: "has_size inputs 3 T F"
    by (elim exE conjE)
  from a obtain c0 c1 where cells: "rnns enc = [c0, c1]"
    by (auto simp: length_Suc_conv numeral_2_eq_2)
  from a cells have k0: "cell_contract 1 (nat (num_units enc)) ?hx c0"
    and k1: "cell_contract 1 (nat (num_units enc)) ?hx c1"
    by auto
  from prepare_scenario [OF no_conv size T sort] obtain packed where
    prep: "prepare srt enc inputs [5, 3, 4] = Inr (packed, [5, 4, 3], [0, 2, 1])"
    and lp: "map length (seqs packed) = [5, 4, 3]"
    by (elim exE conjE)
  let ?o0 = "fst (c0 packed ?hx)" and ?h0 = "snd (c0 packed ?hx)"
  let ?o1 = "fst (c1 ?o0 ?hx)" and ?h1 = "snd (c1 ?o0 ?hx)"
  let ?s = "\<lparr> cur_outputs = ?o1, cur_h_n = Some ?h1, res_outputs_list = [],
              sub_snapshot = Some (?o0, ?h0) \<rparr>"
  have run: "run_layers enc [5, 4, 3] ?hx [0..<nat (num_layers enc)] (initial_state packed) = Inr ?s"
    using a cells two sub_first
    by (simp add: upt_rec layer_step_plain initial_state_def)
  from k0 lp have l0: "map length (seqs ?o0) = [5, 4, 3]"
    and s0: "has_size ?h0 1 (length (seqs packed)) (nat (num_units enc))"
    by (simp_all add: cell_contract_def)
  from k1 l0 have l1: "map length (seqs ?o1) = [5, 4, 3]"
    and s1: "has_size ?h1 1 (length (seqs ?o0)) (nat (num_units enc))"
    by (simp_all add: cell_contract_def)
  have int_lens: "map (\<lambda>r. int (length r)) (seqs q) = [5, 4, 3]"
    if "map length (seqs q) = [5, 4, 3]" for q :: "'a packed"
  proof -
    have "map (\<lambda>r. int (length r)) (seqs q) = map int (map length (seqs q))" by simp
    also have "\<dots> = [5, 4, 3]" unfolding that by simp
    finally show ?thesis .
  qed
  have "\<exists>r. finish enc [5, 4, 3] [0, 2, 1] ?s = Inr r"
  proof (rule finish_plain)
    show "sub_snapshot ?s = Some (?o0, ?h0)" by simp
    show "cur_h_n ?s = Some ?h1" by simp
    show "snd (pad_packed_sequence (cur_outputs ?s) (batch_first enc)) = [5, 4, 3]"
      by (simp add: pad_lengths int_lens [OF l1])
    show "snd (pad_packed_sequence ?o0 (batch_first enc)) = [5, 4, 3]"
      by (simp add: pad_lengths int_lens [OF l0])
    show "\<not> bidirectional enc" by (rule single)
    show "pick_final_state (num_directions enc) ?h1 = Inr [last ?h1]"
      using a pick_final_state_one(1) [OF s1] by simp
    show "pick_final_state (num_directions enc) ?h0 = Inr [last ?h0]"
      using a pick_final_state_one(1) [OF s0] by simp
  qed
  with run show ?thesis
    by (simp add: forward_prepared [OF prep])
  qed
  from returned returns show ?thesis by blast
qed

theorem scenario_534_witness:
  "(\<exists>r. forward stable_sort_descending no_hidden example_encoder scenario_inputs [5, 3, 4] True
          = Inr r
        \<and> outputs r = [[[1], [1], [1], [1], [1]], [[3], [3], [3], [3], [0]], [[2], [2], [2], [0], [0]]]
        \<and> time_size True (outputs r) = 5
        \<and> time_size True (outputs_sub r) = 5
        \<and> leading_sizes (outputs r) 3 5
        \<and> leading_sizes (outputs_sub r) 3 5
        \<and> perm_indices r = [0, 2, 1])
   \<and> (\<exists>r. forward stable_sort_descending no_hidden (example_encoder\<lparr>batch_first := False\<rparr>)
             scenario_inputs [5, 3, 4] True = Inr r
        \<and> time_size False (outputs r) = 5
        \<and> time_size False (outputs_sub r) = 5
        \<and> leading_sizes (outputs r) 5 3
        \<and> leading_sizes (outputs_sub r) 5 3
        \<and> perm_indices r = [0, 2, 1])"
proof -
  have size: "\<exists>T F. 5 \<le> T \<and> has_size scenario_inputs 3 T F"
    by (intro exI [of _ 5] exI [of _ 1]) (simp add: has_size_def scenario_inputs_def)
  have both: "\<exists>r. forward stable_sort_descending no_hidden e scenario_inputs [5, 3, 4] True = Inr r
        \<and> time_size (batch_first e) (outputs r) = 5
        \<and> time_size (batch_first e) (outputs_sub r) = 5
        \<and> (if batch_first e
            then leading_sizes (outputs r) 3 5 \<and> leading_sizes (outputs_sub r) 3 5
            else leading_sizes (outputs r) 5 3 \<and> leading_sizes (outputs_sub r) 5 3)
        \<and> perm_indices r = [0, 2, 1]"
    if e: "e = example_encoder\<lparr>batch_first := b\<rparr>" for e :: "(int, unit) encoder" and b
  proof -
    have scen: "conv e = None" "\<not> bidirectional e" "num_layers e = 2" "num_layers_sub e = 1"
      by (simp_all add: e example_encoder_def)
    have plain: "num_directions e = 1 \<and> \<not> residual e \<and> \<not> dense_residual e \<and> num_proj e \<le> 0
        \<and> length (rnns e) = 2
        \<and> (\<forall>cell \<in> set (rnns e).
              cell_contract 1 (nat (num_units e))
                (no_hidden (length scenario_inputs) (rnn_type e) (num_units e) (num_directions e)
                   (use_cuda e) True)
                cell)
        \<and> (\<exists>T F. 5 \<le> T \<and> has_size scenario_inputs 3 T F)"
      using size sum_cell_contract [where bidir = False and hidden = 1]
      by (simp add: e example_encoder_def)
    note t = scenario_534 [OF scen stable_sort_contract,
               where ih = no_hidden and inputs = scenario_inputs and v = True]
    from t [THEN conjunct2, rule_format, OF plain] obtain r where
      fw: "forward stable_sort_descending no_hidden e scenario_inputs [5, 3, 4] True = Inr r" ..
    from t [THEN conjunct1, rule_format, OF fw] fw show ?thesis
      by (intro exI [of _ r]) simp
  qed
  from both [of example_encoder True] forward_scenario_example
  have first: "\<exists>r. forward stable_sort_descending no_hidden example_encoder scenario_inputs [5, 3, 4] True
          = Inr r
        \<and> outputs r = [[[1], [1], [1], [1], [1]], [[3], [3], [3], [3], [0]], [[2], [2], [2], [0], [0]]]
        \<and> time_size True (outputs r) = 5
        \<and> time_size True (outputs_sub r) = 5
        \<and> leading_sizes (outputs r) 3 5
        \<and> leading_sizes (outputs_sub r) 3 5
        \<and> perm_indices r = [0, 2, 1]"
    by (auto simp: example_encoder_def)
  from both [of "example_encoder\<lparr>batch_first := False\<rparr>" False]
  have second: "\<exists>r. forward stable_sort_descending no_hidden (example_encoder\<lparr>batch_first := False\<rparr>)
             scenario_inputs [5, 3, 4] True = Inr r
        \<and> time_size False (outputs r) = 5
        \<and> time_size False (outputs_sub r) = 5
        \<and> leading_sizes (outputs r) 5 3
        \<and> leading_sizes (outputs_sub r) 5 3
        \<and> perm_indices r = [0, 2, 1]"
    by (simp add: example_encoder_def)
  from first second show ?thesis by (rule conjI)
qed




end
